theory Spec2Isabelle
  imports Complex_Main "HOL-Library.Sublist"
begin

section \<open>Python values\<close>

text \<open>
  The program works on what \<open>json.load\<close> returns and on the dictionaries it builds from
  it: \<open>None\<close>, booleans, unbounded integers, floats, strings, lists and dictionaries.
  A dictionary is an association list in insertion order, as Python keeps it.

  A float is carried by the two things the program observes of it: the text that
  \<open>str()\<close> gives (\<open>float_repr\<close>) and its numeric value (\<open>float_num\<close>), which
  decides truthiness, \<open>int()\<close> and equality with other numbers as a dictionary key.
  Strings are lists of \<open>char\<close>, read as code points below 256.
\<close>

datatype fnum = Finite rat | PosInf | NegInf | NaN

datatype pyfloat = PyFloat (float_repr: string) (float_num: fnum)

datatype pyval =
    PNone
  | PBool bool
  | PInt int
  | PFloat pyfloat
  | PStr string
  | PList "pyval list"
  | PDict "(pyval \<times> pyval) list"

type_synonym pydict = "(pyval \<times> pyval) list"

datatype py_error =
    TypeError
  | AttributeError
  | ValueError
  | OverflowError
  | RuntimeError
  | HTTPError int
  | RequestException

subsection \<open>Truthiness and type tests\<close>

fun py_truthy :: "pyval \<Rightarrow> bool" where
  "py_truthy PNone = False"
| "py_truthy (PBool b) = b"
| "py_truthy (PInt i) = (i \<noteq> 0)"
| "py_truthy (PFloat f) = (float_num f \<noteq> Finite 0)"
| "py_truthy (PStr s) = (s \<noteq> [])"
| "py_truthy (PList xs) = (xs \<noteq> [])"
| "py_truthy (PDict d) = (d \<noteq> [])"

fun is_dict :: "pyval \<Rightarrow> bool" where
  "is_dict (PDict d) = True"
| "is_dict v = False"

fun is_list :: "pyval \<Rightarrow> bool" where
  "is_list (PList xs) = True"
| "is_list v = False"

fun is_str :: "pyval \<Rightarrow> bool" where
  "is_str (PStr s) = True"
| "is_str v = False"

text \<open>\<open>isinstance(v, (str, int, float, bool))\<close>.\<close>

fun is_scalar :: "pyval \<Rightarrow> bool" where
  "is_scalar (PStr s) = True"
| "is_scalar (PInt i) = True"
| "is_scalar (PFloat f) = True"
| "is_scalar (PBool b) = True"
| "is_scalar v = False"

text \<open>Lists and dictionaries cannot be dictionary keys: hashing them raises \<open>TypeError\<close>.\<close>

fun py_hashable :: "pyval \<Rightarrow> bool" where
  "py_hashable (PList xs) = False"
| "py_hashable (PDict d) = False"
| "py_hashable v = True"

subsection \<open>\<open>str()\<close> and \<open>repr()\<close>\<close>

definition digit_char :: "nat \<Rightarrow> char" where
  "digit_char n = ''0123456789abcdef'' ! n"

function str_nat :: "nat \<Rightarrow> string" where
  "str_nat n = (if n < 10 then [digit_char n] else str_nat (n div 10) @ [digit_char (n mod 10)])"
  by pat_completeness auto
termination
  by (relation "measure id") auto

definition str_int :: "int \<Rightarrow> string" where
  "str_int i = (if i < 0 then CHR ''-'' # str_nat (nat (- i)) else str_nat (nat i))"

text \<open>
  \<open>repr\<close> of a string: single quotes unless the string holds a single quote and no
  double quote; backslash, the chosen quote, tab, newline and carriage return are
  escaped, every other non-printable code point is written \<open>\xNN\<close>.
\<close>

definition printable :: "char \<Rightarrow> bool" where
  "printable c = (let n = of_char c :: nat in (32 \<le> n \<and> n < 127) \<or> (161 \<le> n \<and> n \<noteq> 173))"

definition repr_char :: "char \<Rightarrow> char \<Rightarrow> string" where
  "repr_char q c =
     (if c = CHR 0x5C then [CHR 0x5C, CHR 0x5C]
      else if c = q then [CHR 0x5C, q]
      else if c = CHR 0x09 then [CHR 0x5C, CHR ''t'']
      else if c = CHR 0x0A then [CHR 0x5C, CHR ''n'']
      else if c = CHR 0x0D then [CHR 0x5C, CHR ''r'']
      else if printable c then [c]
      else [CHR 0x5C, CHR ''x'', digit_char (of_char c div 16), digit_char (of_char c mod 16)])"

definition repr_str :: "string \<Rightarrow> string" where
  "repr_str s =
     (let q = (if CHR 0x27 \<in> set s \<and> CHR 0x22 \<notin> set s then CHR 0x22 else CHR 0x27)
      in q # concat (map (repr_char q) s) @ [q])"

fun join_str :: "string \<Rightarrow> string list \<Rightarrow> string" where
  "join_str sep [] = []"
| "join_str sep [x] = x"
| "join_str sep (x # y # ys) = x @ sep @ join_str sep (y # ys)"

fun py_repr :: "pyval \<Rightarrow> string" where
  "py_repr PNone = ''None''"
| "py_repr (PBool b) = (if b then ''True'' else ''False'')"
| "py_repr (PInt i) = str_int i"
| "py_repr (PFloat f) = float_repr f"
| "py_repr (PStr s) = repr_str s"
| "py_repr (PList xs) = ''['' @ join_str '', '' (map py_repr xs) @ '']''"
| "py_repr (PDict d) =
     ''{'' @ join_str '', '' (map (\<lambda>kv. py_repr (fst kv) @ '': '' @ py_repr (snd kv)) d) @ ''}''"

text \<open>\<open>str(v)\<close>, which is also what an f-string writes for \<open>{v}\<close>.\<close>

fun py_str :: "pyval \<Rightarrow> string" where
  "py_str (PStr s) = s"
| "py_str v = py_repr v"

subsection \<open>Dictionaries\<close>

text \<open>
  Keys are compared as Python compares them: numbers (booleans included) by value,
  everything else structurally; a string never equals a number. Storing under a key
  that is present keeps its position and the key object found there, storing under a
  new key appends.
\<close>

fun py_num :: "pyval \<Rightarrow> fnum option" where
  "py_num (PBool b) = Some (Finite (if b then 1 else 0))"
| "py_num (PInt i) = Some (Finite (of_int i))"
| "py_num (PFloat f) = Some (float_num f)"
| "py_num v = None"

definition py_key_eq :: "pyval \<Rightarrow> pyval \<Rightarrow> bool" where
  "py_key_eq a b =
     (case py_num a of
        Some x \<Rightarrow> (case py_num b of Some y \<Rightarrow> x = y | None \<Rightarrow> False)
      | None \<Rightarrow> (case py_num b of Some y \<Rightarrow> False | None \<Rightarrow> a = b))"

fun dict_lookup :: "pydict \<Rightarrow> pyval \<Rightarrow> pyval option" where
  "dict_lookup [] k = None"
| "dict_lookup ((k', v) # d) k = (if py_key_eq k' k then Some v else dict_lookup d k)"

fun dict_store :: "pydict \<Rightarrow> pyval \<Rightarrow> pyval \<Rightarrow> pydict" where
  "dict_store [] k v = [(k, v)]"
| "dict_store ((k', v') # d) k v =
     (if py_key_eq k' k then (k', v) # d else (k', v') # dict_store d k v)"

definition dict_remove :: "pydict \<Rightarrow> pyval \<Rightarrow> pydict" where
  "dict_remove d k = filter (\<lambda>kv. \<not> py_key_eq (fst kv) k) d"

text \<open>The operations with a string key, as the program writes them.\<close>

definition dict_get :: "pydict \<Rightarrow> string \<Rightarrow> pyval option" where
  "dict_get d k = dict_lookup d (PStr k)"

definition py_get :: "pydict \<Rightarrow> string \<Rightarrow> pyval" where
  "py_get d k = (case dict_get d k of None \<Rightarrow> PNone | Some v \<Rightarrow> v)"

definition py_get_default :: "pydict \<Rightarrow> string \<Rightarrow> pyval \<Rightarrow> pyval" where
  "py_get_default d k dflt = (case dict_get d k of None \<Rightarrow> dflt | Some v \<Rightarrow> v)"

definition dict_set :: "pydict \<Rightarrow> string \<Rightarrow> pyval \<Rightarrow> pydict" where
  "dict_set d k v = dict_store d (PStr k) v"

definition dict_del :: "pydict \<Rightarrow> string \<Rightarrow> pydict" where
  "dict_del d k = dict_remove d (PStr k)"

text \<open>\<open>d.update(e)\<close>.\<close>

definition dict_update :: "pydict \<Rightarrow> pydict \<Rightarrow> pydict" where
  "dict_update d e = foldl (\<lambda>acc kv. dict_store acc (fst kv) (snd kv)) d e"

subsection \<open>Iteration\<close>

text \<open>
  \<open>for x in v\<close>: a list gives its elements, a string its characters, a dictionary its
  keys; anything else raises \<open>TypeError\<close>. \<open>v.items()\<close> exists on dictionaries only.
\<close>

fun py_iter :: "pyval \<Rightarrow> py_error + pyval list" where
  "py_iter (PList xs) = Inr xs"
| "py_iter (PStr s) = Inr (map (\<lambda>c. PStr [c]) s)"
| "py_iter (PDict d) = Inr (map fst d)"
| "py_iter v = Inl TypeError"

fun py_items :: "pyval \<Rightarrow> py_error + pydict" where
  "py_items (PDict d) = Inr d"
| "py_items v = Inl AttributeError"

text \<open>A \<open>for\<close> loop over a list whose body updates a state and may raise.\<close>

fun py_for :: "('a \<Rightarrow> 's \<Rightarrow> py_error + 's) \<Rightarrow> 'a list \<Rightarrow> 's \<Rightarrow> py_error + 's" where
  "py_for body [] s = Inr s"
| "py_for body (x # xs) s =
     (case body x s of Inl e \<Rightarrow> Inl e | Inr s' \<Rightarrow> py_for body xs s')"

section \<open>Entity normalisation (\<open>main_process_topology.py\<close>)\<close>

subsection \<open>\<open>extract_entities_from_json\<close>\<close>

fun extract_entities_from_json :: "pyval \<Rightarrow> pyval" where
  "extract_entities_from_json (PList xs) = PList xs"
| "extract_entities_from_json (PDict d) = py_get_default d ''entities'' (PList [])"
| "extract_entities_from_json v = PList []"

subsection \<open>\<open>clean_unsupported_metadata\<close>\<close>

text \<open>
  The function first rebinds its argument to \<open>copy.deepcopy(component)\<close>; in this
  value model the copy is the same value. Top-level floats, booleans and integers
  become their \<open>str()\<close>.
\<close>

fun stringify_number :: "pyval \<Rightarrow> pyval" where
  "stringify_number (PFloat f) = PStr (py_str (PFloat f))"
| "stringify_number (PBool b) = PStr (py_str (PBool b))"
| "stringify_number (PInt i) = PStr (py_str (PInt i))"
| "stringify_number v = v"

text \<open>One entry of \<open>osServices\<close>, at index \<open>i\<close>.\<close>

fun convert_service :: "nat \<Rightarrow> pyval \<Rightarrow> pyval" where
  "convert_service i (PDict service) =
     (if py_truthy (py_get service ''dt.osservice.name'') then py_get service ''dt.osservice.name''
      else if py_truthy (py_get service ''dt.osservice.display_name'')
           then py_get service ''dt.osservice.display_name''
      else PStr (''unknown_service_'' @ str_nat i))"
| "convert_service i (PStr s) = PStr s"
| "convert_service i v = PStr (py_str v)"

text \<open>One entry of \<open>customPgMetadata\<close>, at index \<open>i\<close>: the key and the value it is stored under.\<close>

fun metadata_key :: "nat \<Rightarrow> pyval \<Rightarrow> string" where
  "metadata_key i (PDict item) =
     (case py_get item ''key'' of
        PDict raw_key \<Rightarrow>
          (if is_scalar (py_get raw_key ''key'') then py_str (py_get raw_key ''key'')
           else ''unknown_key_'' @ str_nat i)
      | raw_key \<Rightarrow>
          (if is_scalar raw_key then py_str raw_key else ''unknown_key_'' @ str_nat i))"
| "metadata_key i v = ''item_'' @ str_nat i"

fun metadata_value :: "nat \<Rightarrow> pyval \<Rightarrow> pyval" where
  "metadata_value i (PDict item) =
     py_get_default item ''value''
       (py_get_default item ''val'' (PStr (''unknown_value_'' @ str_nat i)))"
| "metadata_value i v = PStr (py_str v)"

definition convert_metadata :: "pyval list \<Rightarrow> pydict" where
  "convert_metadata items =
     foldl (\<lambda>converted_dict (i, item). dict_set converted_dict (metadata_key i item) (metadata_value i item))
       [] (enumerate 0 items)"

definition clean_releasesVersion :: "pydict \<Rightarrow> pydict" where
  "clean_releasesVersion properties =
     (case dict_get properties ''releasesVersion'' of
        Some (PStr s) \<Rightarrow> dict_set properties ''releasesVersion'' (PDict [])
      | _ \<Rightarrow> properties)"

definition clean_osServices :: "pydict \<Rightarrow> pydict" where
  "clean_osServices properties =
     (case dict_get properties ''osServices'' of
        Some (PList services) \<Rightarrow>
          dict_set properties ''osServices''
            (PList (map (\<lambda>(i, service). convert_service i service) (enumerate 0 services)))
      | _ \<Rightarrow> properties)"

definition clean_customPgMetadata :: "pydict \<Rightarrow> pydict" where
  "clean_customPgMetadata properties =
     (case dict_get properties ''customPgMetadata'' of
        None \<Rightarrow> properties
      | Some (PList items) \<Rightarrow>
          dict_set properties ''customPgMetadata'' (PDict (convert_metadata items))
      | Some (PDict d) \<Rightarrow> properties
      | Some v \<Rightarrow> dict_set properties ''customPgMetadata'' (PDict []))"

text \<open>\<open>logFileStatus\<close> and \<open>logSourceState\<close> are handled alike, each under its own name.\<close>

definition clean_log_field :: "string \<Rightarrow> pydict \<Rightarrow> pydict" where
  "clean_log_field name properties =
     (case dict_get properties name of
        None \<Rightarrow> properties
      | Some (PList xs) \<Rightarrow> dict_set properties name (PDict [(PStr name, PList xs)])
      | Some (PDict d) \<Rightarrow> properties
      | Some v \<Rightarrow> dict_set properties name PNone)"

definition clean_properties :: "pydict \<Rightarrow> pydict" where
  "clean_properties properties =
     clean_log_field ''logSourceState''
       (clean_log_field ''logFileStatus''
         (clean_customPgMetadata (clean_osServices (clean_releasesVersion properties))))"

fun clean_unsupported_metadata :: "pyval \<Rightarrow> py_error + pydict" where
  "clean_unsupported_metadata (PDict component) =
     (let component1 = map (\<lambda>kv. (fst kv, stringify_number (snd kv))) component;
          component2 =
            (case dict_get component1 ''properties'' of
               Some (PDict properties) \<Rightarrow>
                 dict_set component1 ''properties'' (PDict (clean_properties properties))
             | _ \<Rightarrow> component1)
      in Inr (dict_del component2 ''lastSeenTimestamp''))"
| "clean_unsupported_metadata v = Inl AttributeError"

subsection \<open>Identifier, tags and management zones\<close>

definition create_component_identifier :: "pyval \<Rightarrow> string" where
  "create_component_identifier entity_id = ''urn:dynatrace:/'' @ py_str entity_id"

text \<open>
  The label of one tag record. \<open>tag_label += key\<close> raises \<open>TypeError\<close> when the key is
  truthy and not a string.
\<close>

definition tag_label :: "pydict \<Rightarrow> py_error + string" where
  "tag_label tag =
     (let context = py_get tag ''context'';
          label1 = (if py_truthy context \<and> context \<noteq> PStr ''CONTEXTLESS''
                    then ''['' @ py_str context @ '']'' else []);
          key = py_get tag ''key'';
          val = py_get tag ''value''
      in if py_truthy key \<and> \<not> is_str key then Inl TypeError
         else Inr ((if py_truthy key then label1 @ py_str key else label1) @
                   (if py_truthy val then '':'' @ py_str val else [])))"

fun extract_tags_step :: "pyval \<Rightarrow> pyval list \<Rightarrow> py_error + pyval list" where
  "extract_tags_step (PDict tag) tags =
     (case tag_label tag of
        Inl e \<Rightarrow> Inl e
      | Inr label \<Rightarrow> Inr (if label \<noteq> [] then tags @ [PStr label] else tags))"
| "extract_tags_step v tags = Inr tags"

definition extract_tags :: "pydict \<Rightarrow> py_error + pyval list" where
  "extract_tags entity =
     (case py_iter (py_get_default entity ''tags'' (PList [])) of
        Inl e \<Rightarrow> Inl e
      | Inr entity_tags \<Rightarrow> py_for extract_tags_step entity_tags [])"

fun extract_zone_step :: "pyval \<Rightarrow> pyval list \<Rightarrow> py_error + pyval list" where
  "extract_zone_step (PDict zone) zones =
     Inr (if py_truthy (py_get zone ''name'')
          then zones @ [PStr (''managementZones:'' @ py_str (py_get zone ''name''))] else zones)"
| "extract_zone_step v zones = Inr zones"

definition extract_management_zones :: "pydict \<Rightarrow> py_error + pyval list" where
  "extract_management_zones entity =
     (case py_iter (py_get_default entity ''managementZones'' (PList [])) of
        Inl e \<Rightarrow> Inl e
      | Inr management_zones \<Rightarrow> py_for extract_zone_step management_zones [])"

subsection \<open>\<open>normalize_process_group_v2_to_v1\<close>\<close>

definition key_mapping :: pydict where
  "key_mapping =
     [(PStr ''COMMAND_LINE_ARGS'', PStr ''commandLineArgs''),
      (PStr ''EXE_NAME'', PStr ''executables''),
      (PStr ''EXE_PATH'', PStr ''executablePaths''),
      (PStr ''JAVA_MAIN_CLASS'', PStr ''javaMainClasses''),
      (PStr ''CONTAINER_IMAGE_NAME'', PStr ''containerImageNames''),
      (PStr ''CONTAINER_IMAGE_VERSION'', PStr ''containerImageVersions''),
      (PStr ''CONTAINER_NAME'', PStr ''containerNames''),
      (PStr ''ELASTIC_SEARCH_CLUSTER_NAMES'', PStr ''elasticSearchClusterNames''),
      (PStr ''ELASTIC_SEARCH_NODE_NAMES'', PStr ''elasticSearchNodeNames''),
      (PStr ''PG_ID_CALC_INPUT_KEY_LINKAGE'', PStr ''pgIdCalcInputKeyLinkage''),
      (PStr ''JAVA_JAR_FILE'', PStr ''javaJarFiles''),
      (PStr ''JAVA_JAR_PATH'', PStr ''javaJarPaths'')]"

text \<open>
  \<open>key_mapping.get(raw_key)\<close>, then \<open>raw_key\<close> itself when that is falsy. Looking a
  list or a dictionary up raises \<open>TypeError\<close>; the caller tests it.
\<close>

definition target_key_of :: "pyval \<Rightarrow> pyval" where
  "target_key_of raw_key =
     (case dict_lookup key_mapping raw_key of
        Some t \<Rightarrow> (if py_truthy t then t else raw_key)
      | None \<Rightarrow> raw_key)"

text \<open>The body of the loop over \<open>metadata_entries\<close>.\<close>

fun metadata_entry_step :: "pyval \<Rightarrow> pydict \<Rightarrow> py_error + pydict" where
  "metadata_entry_step (PDict entry) meta_out =
     (let raw_key = py_get entry ''key'';
          val = py_get entry ''value''
      in if \<not> py_truthy raw_key then Inr meta_out
         else if \<not> py_hashable raw_key then Inl TypeError
         else
           (let target_key = target_key_of raw_key;
                meta1 = (if dict_lookup meta_out target_key = None
                         then dict_store meta_out target_key (PList []) else meta_out)
            in Inr (if val \<noteq> PNone
                    then (case dict_lookup meta1 target_key of
                            Some (PList vs) \<Rightarrow> dict_store meta1 target_key (PList (vs @ [val]))
                          | _ \<Rightarrow> meta1)
                    else meta1)))"
| "metadata_entry_step v meta_out = Inr meta_out"

text \<open>
  \<open>properties\<close> is \<open>data["properties"]\<close> itself when that is truthy, so the three
  \<open>pop\<close>s change \<open>data["properties"]\<close> in place; the last step of the model writes the
  popped dictionary back at its position. When \<open>data["properties"]\<close> is missing or
  falsy, \<open>properties\<close> is a new empty dictionary and \<open>data\<close> keeps what it had.
\<close>

definition normalize_process_group_v2_to_v1 :: "pydict \<Rightarrow> py_error + pydict" where
  "normalize_process_group_v2_to_v1 data =
     (let shared = py_truthy (py_get data ''properties'');
          properties = (if shared then py_get data ''properties'' else PDict [])
      in case properties of
           PDict props \<Rightarrow>
             (let listen_ports = py_get props ''listenPorts'';
                  props1 = dict_del props ''listenPorts'';
                  data1 = (if py_truthy listen_ports \<and> is_list listen_ports
                           then dict_set data ''listenPorts'' listen_ports else data);
                  software_techs = py_get props1 ''softwareTechnologies'';
                  props2 = dict_del props1 ''softwareTechnologies'';
                  data2 = (if py_truthy software_techs \<and> is_list software_techs
                           then dict_set data1 ''softwareTechnologies'' software_techs else data1);
                  detected_name = py_get props2 ''detectedName'';
                  data3 = (if py_truthy detected_name \<and> \<not> py_truthy (py_get data2 ''discoveredName'')
                           then dict_set data2 ''discoveredName'' detected_name else data2);
                  metadata_entries = py_get props2 ''metadata'';
                  props3 = dict_del props2 ''metadata''
              in case (case metadata_entries of
                         PList entries \<Rightarrow> py_for metadata_entry_step entries []
                       | _ \<Rightarrow> Inr []) of
                   Inl e \<Rightarrow> Inl e
                 | Inr meta_out \<Rightarrow>
                     (let data4 = (if meta_out \<noteq> [] then dict_set data3 ''metadata'' (PDict meta_out)
                                   else data3)
                      in Inr (if shared then dict_set data4 ''properties'' (PDict props3) else data4)))
         | _ \<Rightarrow> Inr data)"

subsection \<open>\<open>process_entity_to_component\<close>\<close>

record processed =
  entityId :: pyval
  displayName :: pyval
  component_type :: string
  component :: pydict
  fromRelationships :: pyval
  toRelationships :: pyval

text \<open>
  \<open>":".join(filter(None, tech_parts))\<close>: the truthy segments joined by colons;
  \<open>join\<close> raises \<open>TypeError\<close> when one of them is not a string.
\<close>

definition tech_label :: "pydict \<Rightarrow> py_error + string" where
  "tech_label tech =
     (let tech_parts = filter py_truthy
                         [py_get tech ''type'', py_get tech ''edition'', py_get tech ''version'']
      in if list_all is_str tech_parts then Inr (join_str '':'' (map py_str tech_parts))
         else Inl TypeError)"

fun software_tech_step :: "pyval \<Rightarrow> pyval list \<Rightarrow> py_error + pyval list" where
  "software_tech_step (PDict tech) tags =
     (case tech_label tech of
        Inl e \<Rightarrow> Inl e
      | Inr label \<Rightarrow> Inr (if label \<noteq> [] then tags @ [PStr label] else tags))"
| "software_tech_step v tags = Inr tags"

fun monitoring_state_tags :: "pyval \<Rightarrow> pyval list" where
  "monitoring_state_tags (PDict monitoring_state) =
     (if py_truthy (py_get monitoring_state ''actualMonitoringState'')
      then [PStr (''actualMonitoringState:'' @ py_str (py_get monitoring_state ''actualMonitoringState''))]
      else []) @
     (if py_truthy (py_get monitoring_state ''expectedMonitoringState'')
      then [PStr (''expectedMonitoringState:'' @ py_str (py_get monitoring_state ''expectedMonitoringState''))]
      else [])"
| "monitoring_state_tags v = []"

text \<open>
  \<open>component_data\<close> is a new dictionary filled from \<open>cleaned_entity\<close>; the nested
  \<open>properties\<close> dictionary is shared between the two, and after the process-group
  reshaping only \<open>fromRelationships\<close> and \<open>toRelationships\<close> of \<open>cleaned_entity\<close> are
  read, which the reshaping does not touch.
\<close>

definition process_entity_to_component :: "pyval \<Rightarrow> string \<Rightarrow> py_error + processed" where
  "process_entity_to_component entity ctype =
     (case clean_unsupported_metadata entity of
        Inl e \<Rightarrow> Inl e
      | Inr cleaned_entity \<Rightarrow>
     (let entity_id = py_get_default cleaned_entity ''entityId'' (PStr []);
          display_name = py_get_default cleaned_entity ''displayName'' entity_id;
          identifiers = [PStr (create_component_identifier entity_id)]
      in case extract_tags cleaned_entity of
        Inl e \<Rightarrow> Inl e
      | Inr tags0 \<Rightarrow>
     (case extract_management_zones cleaned_entity of
        Inl e \<Rightarrow> Inl e
      | Inr management_zones \<Rightarrow>
     (let tags1 = tags0 @ management_zones;
          tags2 = (if py_truthy entity_id then tags1 @ [entity_id] else tags1);
          software_techs = py_get_default cleaned_entity ''softwareTechnologies'' (PList [])
      in case (if py_truthy software_techs
               then (case py_iter software_techs of
                       Inl e \<Rightarrow> Inl e
                     | Inr techs \<Rightarrow> py_for software_tech_step techs tags2)
               else Inr tags2) of
        Inl e \<Rightarrow> Inl e
      | Inr tags3 \<Rightarrow>
     (let tags = tags3 @ monitoring_state_tags (py_get cleaned_entity ''monitoringState'');
          component_data0 = dict_update [] cleaned_entity;
          component_data1 =
            dict_del (dict_del (dict_del component_data0 ''fromRelationships'')
                        ''toRelationships'') ''tags''
      in case (if ctype = ''process-group''
               then normalize_process_group_v2_to_v1 component_data1
               else Inr component_data1) of
        Inl e \<Rightarrow> Inl e
      | Inr component_data2 \<Rightarrow>
          Inr \<lparr>entityId = entity_id,
               displayName = display_name,
               component_type = ctype,
               component =
                 dict_update component_data2
                   [(PStr ''identifiers'', PList identifiers),
                    (PStr ''tags'', PList tags),
                    (PStr ''component_type'', PStr ctype)],
               fromRelationships = py_get_default cleaned_entity ''fromRelationships'' (PDict []),
               toRelationships = py_get_default cleaned_entity ''toRelationships'' (PDict [])\<rparr>)))))"

subsection \<open>\<open>process_topology\<close>\<close>

record relationship =
  source :: pyval
  target :: pyval
  rel_type :: pyval

text \<open>
  What the loop over the entities builds: the two output lists, and the warnings it
  prints, each as the entity id shown and the exception caught. The progress lines
  the function prints besides are not modelled.
\<close>

record collected =
  components :: "pydict list"
  relationships :: "relationship list"
  warnings :: "(pyval \<times> py_error) list"

text \<open>\<open>x.get("id") if isinstance(x, dict) else x\<close>.\<close>

fun related_id :: "pyval \<Rightarrow> pyval" where
  "related_id (PDict d) = py_get d ''id''"
| "related_id v = v"

definition outgoing_targets ::
    "pyval \<Rightarrow> pyval \<Rightarrow> pyval list \<Rightarrow> relationship list \<Rightarrow> relationship list" where
  "outgoing_targets entity_id rtype rel_targets rels =
     foldl (\<lambda>acc t. if py_truthy (related_id t)
                     then acc @ [\<lparr>source = entity_id, target = related_id t, rel_type = rtype\<rparr>]
                     else acc) rels rel_targets"

definition incoming_sources ::
    "pyval \<Rightarrow> pyval \<Rightarrow> pyval list \<Rightarrow> relationship list \<Rightarrow> relationship list" where
  "incoming_sources entity_id rtype rel_sources rels =
     foldl (\<lambda>acc s. if py_truthy (related_id s)
                     then acc @ [\<lparr>source = related_id s, target = entity_id, rel_type = rtype\<rparr>]
                     else acc) rels rel_sources"

definition outgoing_relationships :: "pyval \<Rightarrow> pydict \<Rightarrow> relationship list \<Rightarrow> relationship list" where
  "outgoing_relationships entity_id from_rels rels =
     foldl (\<lambda>acc (rtype, rel_targets).
              case rel_targets of
                PList ts \<Rightarrow> outgoing_targets entity_id rtype ts acc
              | _ \<Rightarrow> acc) rels from_rels"

definition incoming_relationships :: "pyval \<Rightarrow> pydict \<Rightarrow> relationship list \<Rightarrow> relationship list" where
  "incoming_relationships entity_id to_rels rels =
     foldl (\<lambda>acc (rtype, rel_sources).
              case rel_sources of
                PList ss \<Rightarrow> incoming_sources entity_id rtype ss acc
              | _ \<Rightarrow> acc) rels to_rels"

text \<open>
  The body of the \<open>try\<close>: the exception raised, if any, and the lists as they are at
  that moment. The component is appended before the relationships are read.
\<close>

definition process_entity_try :: "string \<Rightarrow> pyval \<Rightarrow> collected \<Rightarrow> py_error option \<times> collected" where
  "process_entity_try ctype entity acc =
     (case process_entity_to_component entity ctype of
        Inl e \<Rightarrow> (Some e, acc)
      | Inr p \<Rightarrow>
          (let acc1 = acc\<lparr>components := components acc @ [component p]\<rparr>
           in case py_items (fromRelationships p) of
                Inl e \<Rightarrow> (Some e, acc1)
              | Inr from_rels \<Rightarrow>
                  (let acc2 = acc1\<lparr>relationships :=
                                outgoing_relationships (entityId p) from_rels (relationships acc1)\<rparr>
                   in case py_items (toRelationships p) of
                        Inl e \<Rightarrow> (Some e, acc2)
                      | Inr to_rels \<Rightarrow>
                          (None, acc2\<lparr>relationships :=
                             incoming_relationships (entityId p) to_rels (relationships acc2)\<rparr>))))"

text \<open>
  One iteration with its \<open>except Exception\<close> handler. The handler calls
  \<open>entity.get("entityId", "UNKNOWN")\<close>, which itself raises when the entity is not a
  dictionary; that exception leaves the function.
\<close>

definition process_entity :: "string \<Rightarrow> pyval \<Rightarrow> collected \<Rightarrow> py_error + collected" where
  "process_entity ctype entity acc =
     (case process_entity_try ctype entity acc of
        (None, acc') \<Rightarrow> Inr acc'
      | (Some e, acc') \<Rightarrow>
          (case entity of
             PDict d \<Rightarrow>
               Inr (acc'\<lparr>warnings := warnings acc' @
                          [(py_get_default d ''entityId'' (PStr ''UNKNOWN''), e)]\<rparr>)
           | _ \<Rightarrow> Inl AttributeError))"

definition process_entities :: "string \<Rightarrow> pyval list \<Rightarrow> py_error + collected" where
  "process_entities ctype entities =
     py_for (process_entity ctype) entities \<lparr>components = [], relationships = [], warnings = []\<rparr>"

text \<open>
  The component type, when the caller gives none (\<open>None\<close> or the empty string), comes
  from the lower-cased file name. \<open>lower\<close> is modelled on ASCII letters.
\<close>

definition lower_char :: "char \<Rightarrow> char" where
  "lower_char c =
     (let n = of_char c :: nat in if 65 \<le> n \<and> n \<le> 90 then char_of (n + 32) else c)"

definition detect_component_type :: "string \<Rightarrow> string" where
  "detect_component_type name =
     (let filename = map lower_char name
      in if sublist ''process'' filename \<and> \<not> sublist ''group'' filename then ''process''
         else if sublist ''process-group'' filename then ''process-group''
         else ''entity'')"

record topology_metadata =
  source_file :: string
  meta_component_type :: string
  timestamp :: int
  component_count :: nat
  relationship_count :: nat

record topology =
  metadata :: topology_metadata
  topo_components :: "pydict list"
  topo_relationships :: "relationship list"

text \<open>
  \<open>process_topology\<close>, from the parsed content of the input file: \<open>input_file\<close> is the
  path as a string, \<open>file_name\<close> its last component, \<open>now\<close> the reading of
  \<open>int(time.time())\<close>. The warnings printed are returned beside the topology.
\<close>

definition process_topology ::
    "string \<Rightarrow> string \<Rightarrow> pyval \<Rightarrow> string option \<Rightarrow> int
       \<Rightarrow> py_error + topology \<times> (pyval \<times> py_error) list" where
  "process_topology input_file file_name data ctype_arg now =
     (case py_iter (extract_entities_from_json data) of
        Inl e \<Rightarrow> Inl e
      | Inr entities \<Rightarrow>
          (let ctype = (case ctype_arg of
                          None \<Rightarrow> detect_component_type file_name
                        | Some c \<Rightarrow> (if c = [] then detect_component_type file_name else c))
           in case process_entities ctype entities of
                Inl e \<Rightarrow> Inl e
              | Inr acc \<Rightarrow>
                  Inr (\<lparr>metadata =
                          \<lparr>source_file = input_file,
                           meta_component_type = ctype,
                           timestamp = now,
                           component_count = length (components acc),
                           relationship_count = length (relationships acc)\<rparr>,
                        topo_components = components acc,
                        topo_relationships = relationships acc\<rparr>,
                       warnings acc)))"

subsection \<open>The metadata entries behind one target key\<close>

text \<open>
  For the statement of the process-group metadata fold: the records of a
  \<open>properties.metadata\<close> list that have a (truthy) raw key mapped to the target key
  \<open>k\<close>, in list order, and the values they contribute, \<open>None\<close> left out.
\<close>

fun entries_with_target :: "string \<Rightarrow> pyval list \<Rightarrow> pydict list" where
  "entries_with_target k [] = []"
| "entries_with_target k (PDict en # entries) =
     (if py_truthy (py_get en ''key'') \<and> target_key_of (py_get en ''key'') = PStr k
      then en # entries_with_target k entries else entries_with_target k entries)"
| "entries_with_target k (v # entries) = entries_with_target k entries"

definition values_with_target :: "string \<Rightarrow> pyval list \<Rightarrow> pyval list" where
  "values_with_target k entries =
     [py_get en ''value''. en \<leftarrow> entries_with_target k entries, py_get en ''value'' \<noteq> PNone]"

section \<open>Fetching (\<open>main.py\<close>)\<close>

subsection \<open>\<open>int()\<close>\<close>

text \<open>
  \<open>int(v)\<close>: an integer is itself, a boolean 0 or 1, a float is truncated toward zero
  (\<open>OverflowError\<close> for an infinity, \<open>ValueError\<close> for a NaN), a string is stripped of
  white space and read as an optional sign and decimal digits, with single underscores
  between digits; anything else raises \<open>TypeError\<close>.
\<close>

definition py_space :: "char \<Rightarrow> bool" where
  "py_space c = (c \<in> set [CHR 0x09, CHR 0x0A, CHR 0x0B, CHR 0x0C, CHR 0x0D,
                            CHR 0x1C, CHR 0x1D, CHR 0x1E, CHR 0x1F, CHR 0x20])"

definition is_digit :: "char \<Rightarrow> bool" where
  "is_digit c = (let n = of_char c :: nat in 48 \<le> n \<and> n \<le> 57)"

definition digit_of :: "char \<Rightarrow> nat" where
  "digit_of c = of_char c - 48"

fun digits_value :: "nat \<Rightarrow> string \<Rightarrow> nat option" where
  "digits_value acc [] = Some acc"
| "digits_value acc [c] = (if is_digit c then Some (10 * acc + digit_of c) else None)"
| "digits_value acc (c # d # cs) =
     (if is_digit c then digits_value (10 * acc + digit_of c) (d # cs)
      else if c = CHR ''_'' \<and> is_digit d then digits_value acc (d # cs)
      else None)"

definition parse_int :: "string \<Rightarrow> int option" where
  "parse_int s =
     (let t = rev (dropWhile py_space (rev (dropWhile py_space s)));
          negative = (t \<noteq> [] \<and> hd t = CHR ''-'');
          u = (if t \<noteq> [] \<and> (hd t = CHR ''-'' \<or> hd t = CHR ''+'') then tl t else t)
      in if u \<noteq> [] \<and> is_digit (hd u)
         then map_option (\<lambda>n. if negative then - int n else int n) (digits_value 0 u)
         else None)"

fun py_int :: "pyval \<Rightarrow> py_error + int" where
  "py_int (PInt i) = Inr i"
| "py_int (PBool b) = Inr (if b then 1 else 0)"
| "py_int (PFloat f) =
     (case float_num f of
        Finite q \<Rightarrow> Inr (if 0 \<le> q then \<lfloor>q\<rfloor> else \<lceil>q\<rceil>)
      | NaN \<Rightarrow> Inl ValueError
      | _ \<Rightarrow> Inl OverflowError)"
| "py_int (PStr s) = (case parse_int s of None \<Rightarrow> Inl ValueError | Some i \<Rightarrow> Inr i)"
| "py_int v = Inl TypeError"

subsection \<open>Requests, responses and the outside world\<close>

text \<open>
  A request is a \<open>GET\<close> with its URL, query parameters and headers (the session's own
  \<open>Accept\<close> header is not shown), or the \<open>POST\<close> of a form to the token endpoint. Of a
  response the program reads the status code, the body as \<open>json()\<close> parses it (\<open>None\<close>
  when \<open>json()\<close> raises \<open>ValueError\<close>) and the \<open>Next-Page-Key\<close> header.
\<close>

datatype request =
    Get string pydict pydict
  | Post string pydict

record response =
  status_code :: int
  json_body :: "pyval option"
  next_page_key_header :: "string option"

text \<open>
  What has happened so far: each request sent, with the response received or the
  exception \<open>requests\<close> raised, and each call of \<open>invalidate\<close>.
\<close>

datatype event =
    Sent request "py_error + response"
  | Invalidated

text \<open>
  The servers and the clock are parameters: the answer to a request may depend on
  everything that happened before it, and the \<open>n\<close>-th call of \<open>time.time()\<close> reads
  \<open>clock n\<close>. Times are rational numbers; the rounding of a float addition is not
  modelled.
\<close>

record env =
  respond :: "event list \<Rightarrow> request \<Rightarrow> py_error + response"
  clock :: "nat \<Rightarrow> rat"

record auth_settings =
  auth_url :: string
  client_id :: string
  client_secret :: string
  scope :: "string option"
  resource :: "string option"
  audience :: "string option"

record jwt_authenticator =
  auth_config :: auth_settings
  jwt_token :: pyval
  expiry_epoch :: rat

record world =
  authenticator :: jwt_authenticator
  trace :: "event list"
  ticks :: nat

definition time_time :: "env \<Rightarrow> world \<Rightarrow> rat \<times> world" where
  "time_time ev w = (clock ev (ticks w), w\<lparr>ticks := Suc (ticks w)\<rparr>)"

definition send :: "env \<Rightarrow> request \<Rightarrow> world \<Rightarrow> (py_error + response) \<times> world" where
  "send ev rq w =
     (let r = respond ev (trace w) rq in (r, w\<lparr>trace := trace w @ [Sent rq r]\<rparr>))"

definition requests_post :: "env \<Rightarrow> string \<Rightarrow> pydict \<Rightarrow> world \<Rightarrow> (py_error + response) \<times> world" where
  "requests_post ev u form w = send ev (Post u form) w"

definition session_get ::
    "env \<Rightarrow> string \<Rightarrow> pydict \<Rightarrow> pydict \<Rightarrow> world \<Rightarrow> (py_error + response) \<times> world" where
  "session_get ev u params headers w = send ev (Get u params headers) w"

definition raise_for_status :: "response \<Rightarrow> py_error + unit" where
  "raise_for_status r =
     (if 400 \<le> status_code r \<and> status_code r < 600 then Inl (HTTPError (status_code r))
      else Inr ())"

definition response_json :: "response \<Rightarrow> py_error + pyval" where
  "response_json r = (case json_body r of None \<Rightarrow> Inl ValueError | Some v \<Rightarrow> Inr v)"

subsection \<open>\<open>JwtAuthenticator\<close>\<close>

definition JwtAuthenticator :: "auth_settings \<Rightarrow> jwt_authenticator" where
  "JwtAuthenticator cfg = \<lparr>auth_config = cfg, jwt_token = PNone, expiry_epoch = 0\<rparr>"

definition optional_field :: "string \<Rightarrow> string option \<Rightarrow> pydict \<Rightarrow> pydict" where
  "optional_field k v form =
     (case v of None \<Rightarrow> form | Some s \<Rightarrow> if s \<noteq> [] then dict_set form k (PStr s) else form)"

definition token_form :: "auth_settings \<Rightarrow> pydict" where
  "token_form cfg =
     optional_field ''audience'' (audience cfg)
       (optional_field ''resource'' (resource cfg)
         (optional_field ''scope'' (scope cfg)
           [(PStr ''grant_type'', PStr ''client_credentials''),
            (PStr ''client_id'', PStr (client_id cfg)),
            (PStr ''client_secret'', PStr (client_secret cfg))]))"

definition refresh_token :: "env \<Rightarrow> world \<Rightarrow> (py_error + unit) \<times> world" where
  "refresh_token ev w =
     (let cfg = auth_config (authenticator w)
      in case requests_post ev (auth_url cfg) (token_form cfg) w of
        (Inl e, w1) \<Rightarrow> (Inl e, w1)
      | (Inr response, w1) \<Rightarrow>
     (case raise_for_status response of
        Inl e \<Rightarrow> (Inl e, w1)
      | Inr u \<Rightarrow>
     (case response_json response of
        Inl e \<Rightarrow> (Inl e, w1)
      | Inr (PDict payload) \<Rightarrow>
          (let token = py_get payload ''access_token''
           in if \<not> py_truthy token then (Inl RuntimeError, w1)
              else case py_int (py_get_default payload ''expires_in'' (PInt 300)) of
                Inl e \<Rightarrow> (Inl e, w1)
              | Inr expires_in \<Rightarrow>
                  (let (now, w2) = time_time ev w1
                   in (Inr (),
                       w2\<lparr>authenticator := (authenticator w2)
                            \<lparr>jwt_token := token,
                             expiry_epoch := now + of_int (max (expires_in - 30) 30)\<rparr>\<rparr>)))
      | Inr v \<Rightarrow> (Inl AttributeError, w1))))"

definition get_token :: "env \<Rightarrow> world \<Rightarrow> (py_error + pyval) \<times> world" where
  "get_token ev w =
     (let (now, w1) = time_time ev w
      in if \<not> py_truthy (jwt_token (authenticator w1)) \<or> expiry_epoch (authenticator w1) \<le> now
         then (case refresh_token ev w1 of
                 (Inl e, w2) \<Rightarrow> (Inl e, w2)
               | (Inr u, w2) \<Rightarrow> (Inr (jwt_token (authenticator w2)), w2))
         else (Inr (jwt_token (authenticator w1)), w1))"

definition invalidate :: "world \<Rightarrow> world" where
  "invalidate w =
     w\<lparr>authenticator := (authenticator w)\<lparr>jwt_token := PNone, expiry_epoch := 0\<rparr>,
       trace := trace w @ [Invalidated]\<rparr>"

subsection \<open>\<open>fetch_json\<close>\<close>

definition bearer :: "pyval \<Rightarrow> pydict" where
  "bearer token = [(PStr ''Authorization'', PStr (''Bearer '' @ py_str token))]"

definition do_request :: "env \<Rightarrow> string \<Rightarrow> pydict \<Rightarrow> world \<Rightarrow> (py_error + response) \<times> world" where
  "do_request ev u params w =
     (case get_token ev w of
        (Inl e, w1) \<Rightarrow> (Inl e, w1)
      | (Inr token, w1) \<Rightarrow> session_get ev u params (bearer token) w1)"

definition fetch_json :: "env \<Rightarrow> string \<Rightarrow> pydict \<Rightarrow> world \<Rightarrow> (py_error + pyval) \<times> world" where
  "fetch_json ev u params w =
     (case do_request ev u params w of
        (Inl e, w1) \<Rightarrow> (Inl e, w1)
      | (Inr response, w1) \<Rightarrow>
     (case (if status_code response = 401 then do_request ev u params (invalidate w1)
            else (Inr response, w1)) of
        (Inl e, w2) \<Rightarrow> (Inl e, w2)
      | (Inr response2, w2) \<Rightarrow>
     (case raise_for_status response2 of
        Inl e \<Rightarrow> (Inl e, w2)
      | Inr u \<Rightarrow>
     (case response_json response2 of
        Inl e \<Rightarrow> (Inl RuntimeError, w2)
      | Inr v \<Rightarrow> (Inr v, w2)))))"

subsection \<open>\<open>fetch_paginated_v1\<close>\<close>

text \<open>
  One round of the \<open>while\<close> loop, up to the parsed page: the page, the \<open>Next-Page-Key\<close>
  header of the response it came in, and the headers the loop goes on with.
\<close>

definition v1_page ::
    "env \<Rightarrow> string \<Rightarrow> pydict \<Rightarrow> pydict \<Rightarrow> world \<Rightarrow>
     (py_error + pyval \<times> string option \<times> pydict) \<times> world" where
  "v1_page ev u params headers w =
     (case session_get ev u params headers w of
        (Inl e, w1) \<Rightarrow> (Inl e, w1)
      | (Inr response, w1) \<Rightarrow>
     (case (if status_code response = 401
            then (case get_token ev (invalidate w1) of
                    (Inl e, w2) \<Rightarrow> (Inl e, w2)
                  | (Inr token, w2) \<Rightarrow>
                      (case session_get ev u params (bearer token) w2 of
                         (Inl e, w3) \<Rightarrow> (Inl e, w3)
                       | (Inr response2, w3) \<Rightarrow> (Inr (response2, bearer token), w3)))
            else (Inr (response, headers), w1)) of
        (Inl e, w2) \<Rightarrow> (Inl e, w2)
      | (Inr (response2, headers2), w2) \<Rightarrow>
     (case raise_for_status response2 of
        Inl e \<Rightarrow> (Inl RuntimeError, w2)
      | Inr u \<Rightarrow>
     (case response_json response2 of
        Inl e \<Rightarrow> (Inl RuntimeError, w2)
      | Inr page_data \<Rightarrow> (Inr (page_data, next_page_key_header response2, headers2), w2)))))"

text \<open>
  The loop, with a bound on the number of rounds: \<open>None\<close> when the bound is reached
  before the server stops sending a cursor.
\<close>

fun v1_loop ::
    "env \<Rightarrow> string \<Rightarrow> pydict \<Rightarrow> nat \<Rightarrow> pyval list \<Rightarrow> pydict \<Rightarrow> pydict \<Rightarrow> world \<Rightarrow>
     (py_error + pyval list) option \<times> world" where
  "v1_loop ev u initial_params 0 aggregated_items params headers w = (None, w)"
| "v1_loop ev u initial_params (Suc n) aggregated_items params headers w =
     (case v1_page ev u params headers w of
        (Inl e, w1) \<Rightarrow> (Some (Inl e), w1)
      | (Inr (page_data, next_page_key, headers1), w1) \<Rightarrow>
          (let items1 = (case page_data of
                           PList xs \<Rightarrow> aggregated_items @ xs
                         | v \<Rightarrow> aggregated_items @ [v])
           in case next_page_key of
                None \<Rightarrow> (Some (Inr items1), w1)
              | Some k \<Rightarrow>
                  if k = [] then (Some (Inr items1), w1)
                  else v1_loop ev u initial_params n items1
                         (dict_set initial_params ''nextPageKey'' (PStr k)) headers1 w1))"

definition fetch_paginated_v1 ::
    "env \<Rightarrow> string \<Rightarrow> pydict \<Rightarrow> nat \<Rightarrow> world \<Rightarrow> (py_error + pyval list) option \<times> world" where
  "fetch_paginated_v1 ev u initial_params fuel w =
     (case get_token ev w of
        (Inl e, w1) \<Rightarrow> (Some (Inl e), w1)
      | (Inr token, w1) \<Rightarrow> v1_loop ev u initial_params fuel [] initial_params (bearer token) w1)"

subsection \<open>\<open>fetch_paginated_entities\<close>\<close>

definition page_meta :: "pydict \<Rightarrow> pydict" where
  "page_meta page =
     filter (\<lambda>kv. fst kv \<noteq> PStr ''entities'' \<and> fst kv \<noteq> PStr ''nextPageKey'') page"

fun entities_loop ::
    "env \<Rightarrow> string \<Rightarrow> nat \<Rightarrow> pyval list \<Rightarrow> pydict option \<Rightarrow> pydict \<Rightarrow> world \<Rightarrow>
     (py_error + pyval list \<times> pydict option) option \<times> world" where
  "entities_loop ev u 0 aggregated_entities meta params w = (None, w)"
| "entities_loop ev u (Suc n) aggregated_entities meta params w =
     (case fetch_json ev u params w of
        (Inl e, w1) \<Rightarrow> (Some (Inl e), w1)
      | (Inr (PDict page), w1) \<Rightarrow>
          (let meta1 = (case meta of None \<Rightarrow> Some (page_meta page) | Some m \<Rightarrow> Some m)
           in case py_iter (py_get_default page ''entities'' (PList [])) of
                Inl e \<Rightarrow> (Some (Inl e), w1)
              | Inr page_entities \<Rightarrow>
                  (let next_key = py_get page ''nextPageKey''
                   in if \<not> py_truthy next_key
                      then (Some (Inr (aggregated_entities @ page_entities, meta1)), w1)
                      else entities_loop ev u n (aggregated_entities @ page_entities) meta1
                             [(PStr ''nextPageKey'', next_key)] w1))
      | (Inr v, w1) \<Rightarrow> (Some (Inl AttributeError), w1))"

definition fetch_paginated_entities ::
    "env \<Rightarrow> string \<Rightarrow> pydict \<Rightarrow> nat \<Rightarrow> world \<Rightarrow> (py_error + pydict) option \<times> world" where
  "fetch_paginated_entities ev base_url initial_params fuel w =
     (case entities_loop ev (base_url @ ''/api/v2/entities'') fuel [] None initial_params w of
        (None, w1) \<Rightarrow> (None, w1)
      | (Some (Inl e), w1) \<Rightarrow> (Some (Inl e), w1)
      | (Some (Inr (aggregated_entities, meta)), w1) \<Rightarrow>
          (Some (Inr (dict_set (case meta of None \<Rightarrow> [] | Some m \<Rightarrow> m) ''entities''
                        (PList aggregated_entities))), w1))"

subsection \<open>The request for a token\<close>

text \<open>The form a world's authenticator posts to its token endpoint.\<close>

definition token_request :: "world \<Rightarrow> request" where
  "token_request w =
     Post (auth_url (auth_config (authenticator w))) (token_form (auth_config (authenticator w)))"

subsection \<open>The page requests of a trace\<close>

text \<open>The \<open>GET\<close> requests of a trace, in order: the parameters sent and the answer.\<close>

fun gets :: "event list \<Rightarrow> (pydict \<times> (py_error + response)) list" where
  "gets [] = []"
| "gets (Sent (Get u params headers) r # tr) = (params, r) # gets tr"
| "gets (e # tr) = gets tr"

text \<open>
  For the statement of the continuation rule, as a relation between a \<open>GET\<close> and the
  next one. After a 401 the next request repeats the parameters. Otherwise, under
  protocol A, the response carried a non-empty \<open>Next-Page-Key\<close> header and the next
  parameters are the initial ones with \<open>nextPageKey\<close> set to it; under protocol B the
  page carried a truthy \<open>nextPageKey\<close> field and the next parameters are that cursor
  alone.
\<close>

definition continuation_v1 ::
    "pydict \<Rightarrow> pydict \<times> (py_error + response) \<Rightarrow> pydict \<times> (py_error + response) \<Rightarrow> bool" where
  "continuation_v1 initial_params a b =
     (case snd a of
        Inl e \<Rightarrow> False
      | Inr resp \<Rightarrow>
          if status_code resp = 401 then fst b = fst a
          else (case next_page_key_header resp of
                  None \<Rightarrow> False
                | Some k \<Rightarrow> k \<noteq> [] \<and> fst b = dict_set initial_params ''nextPageKey'' (PStr k)))"

definition continuation_v2 ::
    "pydict \<times> (py_error + response) \<Rightarrow> pydict \<times> (py_error + response) \<Rightarrow> bool" where
  "continuation_v2 a b =
     (case snd a of
        Inl e \<Rightarrow> False
      | Inr resp \<Rightarrow>
          if status_code resp = 401 then fst b = fst a
          else (case json_body resp of
                  Some (PDict page) \<Rightarrow>
                    py_truthy (py_get page ''nextPageKey'') \<and>
                    fst b = [(PStr ''nextPageKey'', py_get page ''nextPageKey'')]
                | _ \<Rightarrow> False))"

text \<open>
  The pages a run of protocol B accepted: the dictionaries that came with a response
  other than a 401. The entities of a page are what \<open>extend\<close> takes from its
  \<open>entities\<close> field.
\<close>

fun accepted_pages :: "(pydict \<times> (py_error + response)) list \<Rightarrow> pydict list" where
  "accepted_pages [] = []"
| "accepted_pages ((params, Inl e) # g) = accepted_pages g"
| "accepted_pages ((params, Inr resp) # g) =
     (if status_code resp = 401 then accepted_pages g
      else (case json_body resp of
              Some (PDict page) \<Rightarrow> page # accepted_pages g
            | _ \<Rightarrow> accepted_pages g))"

definition entities_of_page :: "pydict \<Rightarrow> pyval list" where
  "entities_of_page page =
     (case py_iter (py_get_default page ''entities'' (PList [])) of
        Inl e \<Rightarrow> []
      | Inr page_entities \<Rightarrow> page_entities)"

section \<open>Properties\<close>

subsection \<open>Dictionary lemmas\<close>

lemma py_key_eq_PStr [simp]:
  "py_key_eq (PStr a) k = (k = PStr a)" "py_key_eq k (PStr a) = (k = PStr a)"
  by (cases k; auto simp: py_key_eq_def)+

subsection \<open>A failing entity does not abort the batch\<close>

lemma process_entity_try_components:
  "components (snd (process_entity_try ctype entity acc)) =
     components acc @
       (case process_entity_to_component entity ctype of Inl e \<Rightarrow> [] | Inr p \<Rightarrow> [component p])"
  by (simp add: process_entity_try_def Let_def split: sum.splits)

lemma process_entity_dict:
  "\<exists>acc'. process_entity ctype (PDict d) acc = Inr acc' \<and>
     components acc' =
       components acc @
         (case process_entity_to_component (PDict d) ctype of Inl e \<Rightarrow> [] | Inr p \<Rightarrow> [component p])"
proof (cases "process_entity_try ctype (PDict d) acc")
  case (Pair r acc1)
  have c: "components acc1 =
      components acc @
        (case process_entity_to_component (PDict d) ctype of Inl e \<Rightarrow> [] | Inr p \<Rightarrow> [component p])"
    using process_entity_try_components [of ctype "PDict d" acc] Pair by simp
  show ?thesis
    using Pair c by (cases r) (simp_all add: process_entity_def)
qed

lemma py_for_process_entity:
  "\<exists>acc'. py_for (process_entity ctype) (map PDict ds) acc = Inr acc' \<and>
     components acc' =
       components acc @
         [component p. d \<leftarrow> ds, Inr p \<leftarrow> [process_entity_to_component (PDict d) ctype]]"
proof (induction ds arbitrary: acc)
  case Nil
  then show ?case by simp
next
  case (Cons d ds)
  obtain acc1 where a1: "process_entity ctype (PDict d) acc = Inr acc1"
    and c1: "components acc1 =
      components acc @
        (case process_entity_to_component (PDict d) ctype of Inl e \<Rightarrow> [] | Inr p \<Rightarrow> [component p])"
    using process_entity_dict by blast
  obtain acc2 where a2: "py_for (process_entity ctype) (map PDict ds) acc1 = Inr acc2"
    and c2: "components acc2 =
      components acc1 @
        [component p. d \<leftarrow> ds, Inr p \<leftarrow> [process_entity_to_component (PDict d) ctype]]"
    using Cons.IH by blast
  show ?case
    using a1 a2 c1 c2 by (auto split: sum.splits)
qed

lemma failed_normalization_step:
  assumes "process_entity_to_component (PDict d) ctype = Inl err"
  shows "process_entity ctype (PDict d) acc =
           Inr (acc\<lparr>warnings := warnings acc @
                      [(py_get_default d ''entityId'' (PStr ''UNKNOWN''), err)]\<rparr>)"
  using assms by (simp add: process_entity_def process_entity_try_def)

text \<open>
  The path of an entity that \<open>process_entity_to_component\<close> rejects. For a collection
  of raw entities (JSON objects), the loop of \<open>process_topology\<close> always runs to its end,
  and the components it returns are those of the entities that
  \<open>process_entity_to_component\<close> accepts, in input order. An entity that
  \<open>process_entity_to_component\<close> rejects leaves the components and the relationships
  as they were and adds one warning, which names the entity's \<open>entityId\<close>, or \<open>UNKNOWN\<close>
  when the entity has none.
\<close>

theorem failed_normalization_is_skipped:
  "(\<exists>acc. process_entities ctype (map PDict ds) = Inr acc \<and>
      components acc =
        [component p. d \<leftarrow> ds, Inr p \<leftarrow> [process_entity_to_component (PDict d) ctype]]) \<and>
   (\<forall>err acc. process_entity_to_component (PDict d) ctype = Inl err \<longrightarrow>
      process_entity ctype (PDict d) acc =
        Inr (acc\<lparr>warnings := warnings acc @
                   [(py_get_default d ''entityId'' (PStr ''UNKNOWN''), err)]\<rparr>))"
  using py_for_process_entity [of ctype ds "\<lparr>components = [], relationships = [], warnings = []\<rparr>"]
  by (simp add: process_entities_def failed_normalization_step)

text \<open>
  A batch of ten entities, the fifth with \<open>"tags": null\<close>: nine components, and the
  malformed entity, which has no \<open>entityId\<close>, is reported as \<open>UNKNOWN\<close>.
\<close>

theorem failed_normalization_is_skipped_witness:
  "process_entity_to_component (PDict [(PStr ''tags'', PNone)]) ''process'' = Inl TypeError \<and>
   process_entity ''process'' (PDict [(PStr ''tags'', PNone)])
       \<lparr>components = [], relationships = [], warnings = []\<rparr> =
     Inr \<lparr>components = [], relationships = [], warnings = [(PStr ''UNKNOWN'', TypeError)]\<rparr> \<and>
   (\<exists>acc. process_entities ''process''
            (map PDict
               (map (\<lambda>n. [(PStr ''entityId'', PStr (''E'' @ str_nat n))]) [1, 2, 3, 4] @
                [[(PStr ''tags'', PNone)]] @
                map (\<lambda>n. [(PStr ''entityId'', PStr (''E'' @ str_nat n))]) [6, 7, 8, 9, 10])) =
              Inr acc \<and>
          length (components acc) = 9)"
proof -
  let ?bad = "[(PStr ''tags'', PNone)]"
  let ?batch = "map (\<lambda>n. [(PStr ''entityId'', PStr (''E'' @ str_nat n))]) [1, 2, 3, 4] @
                [?bad] @
                map (\<lambda>n. [(PStr ''entityId'', PStr (''E'' @ str_nat n))]) [6, 7, 8, 9, 10]"
  have h: "process_entity_to_component (PDict ?bad) ''process'' = Inl TypeError"
    by code_simp
  have n: "length [component p. d \<leftarrow> ?batch,
                   Inr p \<leftarrow> [process_entity_to_component (PDict d) ''process'']] = 9"
    by code_simp
  have u: "py_get_default ?bad ''entityId'' (PStr ''UNKNOWN'') = PStr ''UNKNOWN''"
    by code_simp
  from failed_normalization_is_skipped [of "''process''" ?batch ?bad] h n u
  show ?thesis by auto
qed

text \<open>
  Claim C1. An error raised in the same \<open>try\<close> after \<open>process_entity_to_component\<close> has
  returned is caught and reported the same way, but the entity is not skipped.
  \<open>E1\<close> has \<open>"toRelationships": null\<close>: its component and its outgoing edge to \<open>H1\<close> were
  appended before \<open>items()\<close> raises, and both stay in the output although the warning
  reports that \<open>E1\<close> failed. In a batch of ten entities of which the fifth is of this
  form, ten components and one edge are returned beside the warning for \<open>E5\<close>.
\<close>

theorem late_error_keeps_component_and_edge:
  "process_entities ''entity''
     [PDict [(PStr ''entityId'', PStr ''E1''),
             (PStr ''fromRelationships'',
              PDict [(PStr ''runsOn'', PList [PDict [(PStr ''id'', PStr ''H1'')]])]),
             (PStr ''toRelationships'', PNone)]] =
   Inr \<lparr>components =
          [[(PStr ''entityId'', PStr ''E1''),
            (PStr ''identifiers'', PList [PStr ''urn:dynatrace:/E1'']),
            (PStr ''tags'', PList [PStr ''E1'']),
            (PStr ''component_type'', PStr ''entity'')]],
        relationships =
          [\<lparr>source = PStr ''E1'', target = PStr ''H1'', rel_type = PStr ''runsOn''\<rparr>],
        warnings = [(PStr ''E1'', AttributeError)]\<rparr> \<and>
   map_sum id (\<lambda>acc. (length (components acc), relationships acc, warnings acc))
     (process_entities ''entity''
        (map PDict
           (map (\<lambda>n. [(PStr ''entityId'', PStr (''E'' @ str_nat n))]) [1, 2, 3, 4] @
            [[(PStr ''entityId'', PStr ''E5''),
              (PStr ''fromRelationships'',
               PDict [(PStr ''runsOn'', PList [PDict [(PStr ''id'', PStr ''H1'')]])]),
              (PStr ''toRelationships'', PNone)]] @
            map (\<lambda>n. [(PStr ''entityId'', PStr (''E'' @ str_nat n))]) [6, 7, 8, 9, 10]))) =
   Inr (10, [\<lparr>source = PStr ''E5'', target = PStr ''H1'', rel_type = PStr ''runsOn''\<rparr>],
        [(PStr ''E5'', AttributeError)])"
  by code_simp

subsection \<open>Dictionary lookups after the basic operations\<close>

lemma dict_lookup_store_str:
  "dict_lookup (dict_store d t v) (PStr k) = (if t = PStr k then Some v else dict_lookup d (PStr k))"
  by (induction d) auto

lemma dict_get_set: "dict_get (dict_set d k v) k' = (if k = k' then Some v else dict_get d k')"
  by (simp add: dict_get_def dict_set_def dict_lookup_store_str)

lemma dict_lookup_remove_str:
  "dict_lookup (dict_remove d t) (PStr k) = (if t = PStr k then None else dict_lookup d (PStr k))"
  by (induction d) (auto simp: dict_remove_def)

lemma dict_get_del: "dict_get (dict_del d k) k' = (if k = k' then None else dict_get d k')"
  by (simp add: dict_get_def dict_del_def dict_lookup_remove_str)

lemma dict_get_map_values:
  "dict_get (map (\<lambda>kv. (fst kv, f (snd kv))) d) k = map_option f (dict_get d k)"
  by (induction d) (auto simp: dict_get_def)

subsection \<open>What cleaning keeps\<close>

lemma clean_keeps_field:
  assumes "clean_unsupported_metadata (PDict e) = Inr c"
    and "k \<noteq> ''properties''" and "k \<noteq> ''lastSeenTimestamp''"
  shows "dict_get c k = map_option stringify_number (dict_get e k)"
  using assms
  by (auto simp: Let_def dict_get_del dict_get_set dict_get_map_values
           split: option.splits pyval.splits)

lemma clean_dict_succeeds: "\<exists>c. clean_unsupported_metadata (PDict e) = Inr c"
  by (simp add: Let_def)

subsection \<open>The relationship loops as list comprehensions\<close>

lemma outgoing_targets_eq:
  "outgoing_targets eid rt ts rels =
     rels @ [\<lparr>source = eid, target = related_id t, rel_type = rt\<rparr>. t \<leftarrow> ts, py_truthy (related_id t)]"
  unfolding outgoing_targets_def
  by (induction ts arbitrary: rels) auto

lemma incoming_sources_eq:
  "incoming_sources eid rt ss rels =
     rels @ [\<lparr>source = related_id s, target = eid, rel_type = rt\<rparr>. s \<leftarrow> ss, py_truthy (related_id s)]"
  unfolding incoming_sources_def
  by (induction ss arbitrary: rels) auto

lemma outgoing_relationships_eq:
  "outgoing_relationships eid from_rels rels =
     rels @ [\<lparr>source = eid, target = related_id t, rel_type = rt\<rparr>.
               (rt, PList ts) \<leftarrow> from_rels, t \<leftarrow> ts, py_truthy (related_id t)]"
  unfolding outgoing_relationships_def
proof (induction from_rels arbitrary: rels)
  case Nil
  then show ?case by simp
next
  case (Cons entry from_rels)
  obtain rt v where entry: "entry = (rt, v)" by (cases entry)
  show ?case
    by (cases v) (simp_all add: entry Cons.IH outgoing_targets_eq)
qed

lemma incoming_relationships_eq:
  "incoming_relationships eid to_rels rels =
     rels @ [\<lparr>source = related_id s, target = eid, rel_type = rt\<rparr>.
               (rt, PList ss) \<leftarrow> to_rels, s \<leftarrow> ss, py_truthy (related_id s)]"
  unfolding incoming_relationships_def
proof (induction to_rels arbitrary: rels)
  case Nil
  then show ?case by simp
next
  case (Cons entry to_rels)
  obtain rt v where entry: "entry = (rt, v)" by (cases entry)
  show ?case
    by (cases v) (simp_all add: entry Cons.IH incoming_sources_eq)
qed

lemma processed_fields:
  assumes "process_entity_to_component (PDict e) ctype = Inr p"
    and "clean_unsupported_metadata (PDict e) = Inr c"
  shows "entityId p = py_get_default c ''entityId'' (PStr [])"
    and "fromRelationships p = py_get_default c ''fromRelationships'' (PDict [])"
    and "toRelationships p = py_get_default c ''toRelationships'' (PDict [])"
  using assms
  by (auto simp: process_entity_to_component_def Let_def split: sum.splits if_splits)

lemma processed_raw_fields:
  assumes "process_entity_to_component (PDict e) ctype = Inr p"
    and "dict_get e ''entityId'' = Some (PStr eid)"
    and "py_get_default e ''fromRelationships'' (PDict []) = PDict from_rels"
    and "py_get_default e ''toRelationships'' (PDict []) = PDict to_rels"
  shows "entityId p = PStr eid \<and> fromRelationships p = PDict from_rels \<and>
         toRelationships p = PDict to_rels"
proof -
  obtain c where c: "clean_unsupported_metadata (PDict e) = Inr c"
    using clean_dict_succeeds by blast
  have k: "dict_get c k = map_option stringify_number (dict_get e k)"
    if "k \<noteq> ''properties''" "k \<noteq> ''lastSeenTimestamp''" for k
    using clean_keeps_field [OF c that] .
  have "py_get_default c ''entityId'' (PStr []) = PStr eid"
    using assms(2) by (simp add: py_get_default_def k)
  moreover have "py_get_default c ''fromRelationships'' (PDict []) = PDict from_rels"
    using assms(3) by (auto simp: py_get_default_def k split: option.splits)
  moreover have "py_get_default c ''toRelationships'' (PDict []) = PDict to_rels"
    using assms(4) by (auto simp: py_get_default_def k split: option.splits)
  ultimately show ?thesis
    using processed_fields [OF assms(1) c] by simp
qed

lemma process_entity_try_relationships:
  assumes "process_entity_to_component entity ctype = Inr p"
    and "fromRelationships p = PDict from_rels"
    and "toRelationships p = PDict to_rels"
  shows "process_entity_try ctype entity acc =
           (None, acc\<lparr>components := components acc @ [component p],
                       relationships :=
                         relationships acc @
                         [\<lparr>source = entityId p, target = related_id t, rel_type = rt\<rparr>.
                            (rt, PList ts) \<leftarrow> from_rels, t \<leftarrow> ts, py_truthy (related_id t)] @
                         [\<lparr>source = related_id s, target = entityId p, rel_type = rt\<rparr>.
                            (rt, PList ss) \<leftarrow> to_rels, s \<leftarrow> ss, py_truthy (related_id s)]\<rparr>)"
  using assms
  by (simp add: process_entity_try_def Let_def outgoing_relationships_eq incoming_relationships_eq)

subsection \<open>Relationship extraction\<close>

text \<open>
  Claim C8. Take an entity with id \<open>eid\<close> that \<open>process_entity_to_component\<close> accepts,
  with the outgoing map \<open>from_rels\<close> and the incoming map \<open>to_rels\<close> (an absent map
  is the empty one). Its iteration of the loop raises nothing and appends exactly
  the edges \<open>{source: eid, target: id of t, type: rt}\<close> for the targets \<open>t\<close> of the
  list-valued entries \<open>rt\<close> of \<open>from_rels\<close>, then the edges
  \<open>{source: id of s, target: eid, type: rt}\<close> for the sources \<open>s\<close> of the list-valued
  entries of \<open>to_rels\<close>; an entry whose value is not a list gives no edge. The id of
  a record is its \<open>id\<close> field and the id of a bare string is the string: a record
  with a (truthy) \<open>id\<close> and a non-empty bare string each give their edge.
\<close>

theorem relationships_of_entity:
  assumes "process_entity_to_component (PDict e) ctype = Inr p"
    and "dict_get e ''entityId'' = Some (PStr eid)"
    and "py_get_default e ''fromRelationships'' (PDict []) = PDict from_rels"
    and "py_get_default e ''toRelationships'' (PDict []) = PDict to_rels"
  shows "\<exists>new.
     process_entity_try ctype (PDict e) acc =
       (None, acc\<lparr>components := components acc @ [component p],
                   relationships := relationships acc @ new\<rparr>) \<and>
     new =
       [\<lparr>source = PStr eid, target = related_id t, rel_type = rt\<rparr>.
          (rt, PList ts) \<leftarrow> from_rels, t \<leftarrow> ts, py_truthy (related_id t)] @
       [\<lparr>source = related_id s, target = PStr eid, rel_type = rt\<rparr>.
          (rt, PList ss) \<leftarrow> to_rels, s \<leftarrow> ss, py_truthy (related_id s)] \<and>
     (\<forall>rt ts d tid. (rt, PList ts) \<in> set from_rels \<and> PDict d \<in> set ts \<and>
         dict_get d ''id'' = Some tid \<and> py_truthy tid \<longrightarrow>
         \<lparr>source = PStr eid, target = tid, rel_type = rt\<rparr> \<in> set new) \<and>
     (\<forall>rt ts s. (rt, PList ts) \<in> set from_rels \<and> PStr s \<in> set ts \<and> s \<noteq> [] \<longrightarrow>
         \<lparr>source = PStr eid, target = PStr s, rel_type = rt\<rparr> \<in> set new) \<and>
     (\<forall>rt ss d sid. (rt, PList ss) \<in> set to_rels \<and> PDict d \<in> set ss \<and>
         dict_get d ''id'' = Some sid \<and> py_truthy sid \<longrightarrow>
         \<lparr>source = sid, target = PStr eid, rel_type = rt\<rparr> \<in> set new) \<and>
     (\<forall>rt ss s. (rt, PList ss) \<in> set to_rels \<and> PStr s \<in> set ss \<and> s \<noteq> [] \<longrightarrow>
         \<lparr>source = PStr s, target = PStr eid, rel_type = rt\<rparr> \<in> set new)"
proof -
  let ?out = "[\<lparr>source = PStr eid, target = related_id t, rel_type = rt\<rparr>.
          (rt, PList ts) \<leftarrow> from_rels, t \<leftarrow> ts, py_truthy (related_id t)]"
  let ?inc = "[\<lparr>source = related_id s, target = PStr eid, rel_type = rt\<rparr>.
          (rt, PList ss) \<leftarrow> to_rels, s \<leftarrow> ss, py_truthy (related_id s)]"
  have f: "entityId p = PStr eid" "fromRelationships p = PDict from_rels"
      "toRelationships p = PDict to_rels"
    using processed_raw_fields [OF assms] by simp_all
  have run: "process_entity_try ctype (PDict e) acc =
       (None, acc\<lparr>components := components acc @ [component p],
                   relationships := relationships acc @ (?out @ ?inc)\<rparr>)"
    using process_entity_try_relationships [OF assms(1) f(2) f(3), of acc]
    unfolding f(1) append_assoc .
  have o1: "\<lparr>source = PStr eid, target = tid, rel_type = rt\<rparr> \<in> set ?out"
    if "(rt, PList ts) \<in> set from_rels" "PDict d \<in> set ts" "dict_get d ''id'' = Some tid"
       "py_truthy tid" for rt ts d tid
  proof -
    have "related_id (PDict d) = tid" using that(3) by (simp add: py_get_def)
    then show ?thesis using that by force
  qed
  have o2: "\<lparr>source = PStr eid, target = PStr s, rel_type = rt\<rparr> \<in> set ?out"
    if "(rt, PList ts) \<in> set from_rels" "PStr s \<in> set ts" "s \<noteq> []" for rt ts s
    using that by force
  have i1: "\<lparr>source = sid, target = PStr eid, rel_type = rt\<rparr> \<in> set ?inc"
    if "(rt, PList ss) \<in> set to_rels" "PDict d \<in> set ss" "dict_get d ''id'' = Some sid"
       "py_truthy sid" for rt ss d sid
  proof -
    have "related_id (PDict d) = sid" using that(3) by (simp add: py_get_def)
    then show ?thesis using that by force
  qed
  have i2: "\<lparr>source = PStr s, target = PStr eid, rel_type = rt\<rparr> \<in> set ?inc"
    if "(rt, PList ss) \<in> set to_rels" "PStr s \<in> set ss" "s \<noteq> []" for rt ss s
    using that by force
  show ?thesis
    apply (rule exI [of _ "?out @ ?inc"])
    using run o1 o2 i1 i2 by (simp only: set_append Un_iff) blast
qed

text \<open>
  The two entities of the specification in one: \<open>E1\<close> runs on the record \<open>H1\<close> and is
  an instance of the bare id \<open>PG1\<close>; the entry \<open>"note": "n/a"\<close>, which is no list,
  gives no edge.
\<close>

theorem relationships_of_entity_witness:
  "\<exists>p acc'.
     process_entity_to_component
       (PDict [(PStr ''entityId'', PStr ''E1''),
               (PStr ''fromRelationships'',
                PDict [(PStr ''runsOn'', PList [PDict [(PStr ''id'', PStr ''H1'')]]),
                       (PStr ''note'', PStr ''n/a'')]),
               (PStr ''toRelationships'',
                PDict [(PStr ''isInstanceOf'', PList [PStr ''PG1''])])]) ''process'' = Inr p \<and>
     process_entity_try ''process''
       (PDict [(PStr ''entityId'', PStr ''E1''),
               (PStr ''fromRelationships'',
                PDict [(PStr ''runsOn'', PList [PDict [(PStr ''id'', PStr ''H1'')]]),
                       (PStr ''note'', PStr ''n/a'')]),
               (PStr ''toRelationships'',
                PDict [(PStr ''isInstanceOf'', PList [PStr ''PG1''])])])
       \<lparr>components = [], relationships = [], warnings = []\<rparr> = (None, acc') \<and>
     relationships acc' =
       [\<lparr>source = PStr ''E1'', target = PStr ''H1'', rel_type = PStr ''runsOn''\<rparr>,
        \<lparr>source = PStr ''PG1'', target = PStr ''E1'', rel_type = PStr ''isInstanceOf''\<rparr>]"
proof -
  let ?fr = "[(PStr ''runsOn'', PList [PDict [(PStr ''id'', PStr ''H1'')]]),
              (PStr ''note'', PStr ''n/a'')]"
  let ?tr = "[(PStr ''isInstanceOf'', PList [PStr ''PG1''])]"
  let ?e = "[(PStr ''entityId'', PStr ''E1''), (PStr ''fromRelationships'', PDict ?fr),
             (PStr ''toRelationships'', PDict ?tr)]"
  have "\<not> isl (process_entity_to_component (PDict ?e) ''process'')"
    by code_simp
  then obtain p where p: "process_entity_to_component (PDict ?e) ''process'' = Inr p"
    by (cases "process_entity_to_component (PDict ?e) ''process''") auto
  have h2: "dict_get ?e ''entityId'' = Some (PStr ''E1'')" by code_simp
  have h3: "py_get_default ?e ''fromRelationships'' (PDict []) = PDict ?fr" by code_simp
  have h4: "py_get_default ?e ''toRelationships'' (PDict []) = PDict ?tr" by code_simp
  have ev: "[\<lparr>source = PStr ''E1'', target = related_id t, rel_type = rt\<rparr>.
               (rt, PList ts) \<leftarrow> ?fr, t \<leftarrow> ts, py_truthy (related_id t)] @
            [\<lparr>source = related_id s, target = PStr ''E1'', rel_type = rt\<rparr>.
               (rt, PList ss) \<leftarrow> ?tr, s \<leftarrow> ss, py_truthy (related_id s)] =
            [\<lparr>source = PStr ''E1'', target = PStr ''H1'', rel_type = PStr ''runsOn''\<rparr>,
             \<lparr>source = PStr ''PG1'', target = PStr ''E1'', rel_type = PStr ''isInstanceOf''\<rparr>]"
    by (simp add: py_get_def dict_get_def)
  from relationships_of_entity [OF p h2 h3 h4,
      of "\<lparr>components = [], relationships = [], warnings = []\<rparr>"]
  obtain new where
    "process_entity_try ''process'' (PDict ?e) \<lparr>components = [], relationships = [], warnings = []\<rparr> =
       (None, \<lparr>components = [component p], relationships = new, warnings = []\<rparr>)"
    and "new = [\<lparr>source = PStr ''E1'', target = related_id t, rel_type = rt\<rparr>.
               (rt, PList ts) \<leftarrow> ?fr, t \<leftarrow> ts, py_truthy (related_id t)] @
            [\<lparr>source = related_id s, target = PStr ''E1'', rel_type = rt\<rparr>.
               (rt, PList ss) \<leftarrow> ?tr, s \<leftarrow> ss, py_truthy (related_id s)]"
    by auto
  then show ?thesis using p ev by auto
qed

lemma outgoing_relationships_sides:
  "r \<in> set (outgoing_relationships eid from_rels rels) \<Longrightarrow>
     r \<in> set rels \<or> (source r = eid \<and> py_truthy (target r))"
  by (auto simp: outgoing_relationships_eq split: pyval.splits if_splits)

lemma incoming_relationships_sides:
  "r \<in> set (incoming_relationships eid to_rels rels) \<Longrightarrow>
     r \<in> set rels \<or> (target r = eid \<and> py_truthy (source r))"
  by (auto simp: incoming_relationships_eq split: pyval.splits if_splits)

lemma outgoing_relationships_extends:
  "\<exists>new. outgoing_relationships eid from_rels rels = rels @ new \<and>
     (\<forall>r \<in> set new. source r = eid \<and> py_truthy (target r))"
  by (auto simp: outgoing_relationships_eq split: pyval.splits if_splits)

lemma incoming_relationships_extends:
  "\<exists>new. incoming_relationships eid to_rels rels = rels @ new \<and>
     (\<forall>r \<in> set new. target r = eid \<and> py_truthy (source r))"
  by (auto simp: incoming_relationships_eq split: pyval.splits if_splits)

lemma process_entity_try_new_relationships:
  "\<exists>new. relationships (snd (process_entity_try ctype entity acc)) = relationships acc @ new \<and>
     (\<forall>x \<in> set new. \<exists>p. process_entity_to_component entity ctype = Inr p \<and>
        ((source x = entityId p \<and> py_truthy (target x)) \<or>
         (target x = entityId p \<and> py_truthy (source x))))"
proof (cases "process_entity_to_component entity ctype")
  case (Inl e)
  then show ?thesis by (simp add: process_entity_try_def)
next
  case (Inr p)
  show ?thesis
  proof (cases "py_items (fromRelationships p)")
    case (Inl e)
    then show ?thesis using Inr by (simp add: process_entity_try_def Let_def)
  next
    case fr: (Inr from_rels)
    obtain out where out:
      "outgoing_relationships (entityId p) from_rels (relationships acc) = relationships acc @ out"
      "\<forall>r \<in> set out. source r = entityId p \<and> py_truthy (target r)"
      using outgoing_relationships_extends by blast
    show ?thesis
    proof (cases "py_items (toRelationships p)")
      case (Inl e)
      then show ?thesis using Inr fr out by (auto simp: process_entity_try_def Let_def)
    next
      case tr: (Inr to_rels)
      obtain inc where inc:
        "incoming_relationships (entityId p) to_rels (relationships acc @ out) =
           (relationships acc @ out) @ inc"
        "\<forall>r \<in> set inc. target r = entityId p \<and> py_truthy (source r)"
        using incoming_relationships_extends by blast
      have "relationships (snd (process_entity_try ctype entity acc)) =
              relationships acc @ (out @ inc)"
        using Inr fr tr out(1) inc(1) by (simp add: process_entity_try_def Let_def)
      moreover have "\<forall>x \<in> set (out @ inc).
          (source x = entityId p \<and> py_truthy (target x)) \<or>
          (target x = entityId p \<and> py_truthy (source x))"
        using out(2) inc(2) by auto
      ultimately show ?thesis using Inr by blast
    qed
  qed
qed

text \<open>
  Claim C10 (amended). In a relationship list, an entry whose resolved id is falsy is
  dropped without an error: the loops give the same edges with the entry as without
  it. The resolved id of a record without an \<open>id\<close> field is \<open>None\<close>, and \<open>None\<close>, the empty
  string and a record whose \<open>id\<close> is one of them are falsy. So every edge an
  iteration of \<open>process_topology\<close> appends has, on the side that the list entry
  supplied, a truthy value (never \<open>None\<close>, never the empty string), and the entity's
  own id on the other side. The loops test truthiness only: the supplied side is a
  non-empty string when the truthy resolved ids of the list are strings.
\<close>

theorem falsy_related_ids_are_dropped:
  "(\<not> py_truthy (related_id t) \<longrightarrow>
      outgoing_targets eid rt (ts1 @ t # ts2) rels = outgoing_targets eid rt (ts1 @ ts2) rels \<and>
      incoming_sources eid rt (ts1 @ t # ts2) rels = incoming_sources eid rt (ts1 @ ts2) rels) \<and>
   (dict_get d ''id'' = None \<or> dict_get d ''id'' = Some PNone \<or>
    dict_get d ''id'' = Some (PStr []) \<longrightarrow> \<not> py_truthy (related_id (PDict d))) \<and>
   \<not> py_truthy (related_id PNone) \<and> \<not> py_truthy (related_id (PStr [])) \<and>
   (\<exists>new. relationships (snd (process_entity_try ctype entity acc)) = relationships acc @ new \<and>
      (\<forall>x \<in> set new. \<exists>p. process_entity_to_component entity ctype = Inr p \<and>
         ((source x = entityId p \<and> py_truthy (target x) \<and>
             target x \<noteq> PNone \<and> target x \<noteq> PStr []) \<or>
          (target x = entityId p \<and> py_truthy (source x) \<and>
             source x \<noteq> PNone \<and> source x \<noteq> PStr [])))) \<and>
   ((\<forall>t \<in> set ts. py_truthy (related_id t) \<longrightarrow> is_str (related_id t)) \<longrightarrow>
      (\<forall>r \<in> set (outgoing_targets eid rt ts []). \<exists>s. target r = PStr s \<and> s \<noteq> []) \<and>
      (\<forall>r \<in> set (incoming_sources eid rt ts []). \<exists>s. source r = PStr s \<and> s \<noteq> []))"
proof -
  have drop: "\<not> py_truthy (related_id t) \<longrightarrow>
      outgoing_targets eid rt (ts1 @ t # ts2) rels = outgoing_targets eid rt (ts1 @ ts2) rels \<and>
      incoming_sources eid rt (ts1 @ t # ts2) rels = incoming_sources eid rt (ts1 @ ts2) rels"
    by (simp add: outgoing_targets_eq incoming_sources_eq)
  have rec: "dict_get d ''id'' = None \<or> dict_get d ''id'' = Some PNone \<or>
    dict_get d ''id'' = Some (PStr []) \<longrightarrow> \<not> py_truthy (related_id (PDict d))"
    by (auto simp: py_get_def)
  have truthy: "py_truthy v \<Longrightarrow> v \<noteq> PNone \<and> v \<noteq> PStr []" for v
    by auto
  obtain new where new:
    "relationships (snd (process_entity_try ctype entity acc)) = relationships acc @ new"
    "\<forall>x \<in> set new. \<exists>p. process_entity_to_component entity ctype = Inr p \<and>
        ((source x = entityId p \<and> py_truthy (target x)) \<or>
         (target x = entityId p \<and> py_truthy (source x)))"
    using process_entity_try_new_relationships by blast
  have "\<forall>x \<in> set new. \<exists>p. process_entity_to_component entity ctype = Inr p \<and>
         ((source x = entityId p \<and> py_truthy (target x) \<and>
             target x \<noteq> PNone \<and> target x \<noteq> PStr []) \<or>
          (target x = entityId p \<and> py_truthy (source x) \<and>
             source x \<noteq> PNone \<and> source x \<noteq> PStr []))"
    using new(2) truthy by blast
  moreover have "(\<forall>t \<in> set ts. py_truthy (related_id t) \<longrightarrow> is_str (related_id t)) \<longrightarrow>
      (\<forall>r \<in> set (outgoing_targets eid rt ts []). \<exists>s. target r = PStr s \<and> s \<noteq> []) \<and>
      (\<forall>r \<in> set (incoming_sources eid rt ts []). \<exists>s. source r = PStr s \<and> s \<noteq> [])"
  proof -
    have str: "\<exists>s. v = PStr s \<and> s \<noteq> []" if "is_str v" "py_truthy v" for v
      using that by (cases v) auto
    show ?thesis
      by (auto simp: outgoing_targets_eq incoming_sources_eq str)
  qed
  ultimately show ?thesis
    using new(1) drop rec by auto
qed

text \<open>
  \<open>E1\<close> lists, under \<open>runsOn\<close>, a record without \<open>id\<close>, an empty string, \<open>null\<close>, a
  record with an empty \<open>id\<close> and the id \<open>H1\<close>: one edge.
\<close>

theorem falsy_related_ids_are_dropped_witness:
  "\<not> py_truthy (related_id (PDict [(PStr ''type'', PStr ''HOST'')])) \<and>
   dict_get [(PStr ''type'', PStr ''HOST'')] ''id'' = None \<and>
   outgoing_targets (PStr ''E1'') (PStr ''runsOn'')
     ([PStr [], PNone] @ PDict [(PStr ''type'', PStr ''HOST'')] # [PStr ''H1'']) [] =
     [\<lparr>source = PStr ''E1'', target = PStr ''H1'', rel_type = PStr ''runsOn''\<rparr>] \<and>
   relationships (snd (process_entity_try ''process''
     (PDict [(PStr ''entityId'', PStr ''E1''),
             (PStr ''fromRelationships'',
              PDict [(PStr ''runsOn'',
                      PList [PDict [(PStr ''type'', PStr ''HOST'')], PStr [], PNone,
                             PDict [(PStr ''id'', PStr [])], PStr ''H1''])])])
     \<lparr>components = [], relationships = [], warnings = []\<rparr>)) =
     [\<lparr>source = PStr ''E1'', target = PStr ''H1'', rel_type = PStr ''runsOn''\<rparr>] \<and>
   list_all is_str
     (map target (outgoing_targets (PStr ''E1'') (PStr ''runsOn'')
                    [PStr [], PDict [(PStr ''id'', PStr ''H2'')], PStr ''H1''] []))"
proof -
  let ?t = "PDict [(PStr ''type'', PStr ''HOST'')]"
  have h1: "\<not> py_truthy (related_id ?t)" by code_simp
  have h2: "dict_get [(PStr ''type'', PStr ''HOST'')] ''id'' = None" by code_simp
  have e1: "outgoing_targets (PStr ''E1'') (PStr ''runsOn'') ([PStr [], PNone] @ [PStr ''H1'']) [] =
     [\<lparr>source = PStr ''E1'', target = PStr ''H1'', rel_type = PStr ''runsOn''\<rparr>]"
    by code_simp
  have e2: "relationships (snd (process_entity_try ''process''
     (PDict [(PStr ''entityId'', PStr ''E1''),
             (PStr ''fromRelationships'',
              PDict [(PStr ''runsOn'',
                      PList [PDict [(PStr ''type'', PStr ''HOST'')], PStr [], PNone,
                             PDict [(PStr ''id'', PStr [])], PStr ''H1''])])])
     \<lparr>components = [], relationships = [], warnings = []\<rparr>)) =
     [\<lparr>source = PStr ''E1'', target = PStr ''H1'', rel_type = PStr ''runsOn''\<rparr>]"
    by code_simp
  have e3: "list_all is_str
     (map target (outgoing_targets (PStr ''E1'') (PStr ''runsOn'')
                    [PStr [], PDict [(PStr ''id'', PStr ''H2'')], PStr ''H1''] []))"
    by code_simp
  have h3: "\<forall>t \<in> set [PStr [], PDict [(PStr ''id'', PStr ''H2'')], PStr ''H1''].
              py_truthy (related_id t) \<longrightarrow> is_str (related_id t)"
    by (simp add: py_get_def dict_get_def)
  from falsy_related_ids_are_dropped [where t = ?t and eid = "PStr ''E1''" and rt = "PStr ''runsOn''"
      and ?ts1.0 = "[PStr [], PNone]" and ?ts2.0 = "[PStr ''H1'']" and rels = "[]"
      and d = "[(PStr ''type'', PStr ''HOST'')]"
      and ts = "[PStr [], PDict [(PStr ''id'', PStr ''H2'')], PStr ''H1'']"] h1 h2 h3 e1 e2 e3
  show ?thesis by simp
qed

text \<open>
  The claim as stated fails: the loops make no string test, so a truthy resolved id
  that is not a string is emitted as it is. \<open>E1\<close> lists the number 42, \<open>true\<close> and a
  record whose \<open>id\<close> is a record as targets, and the number 7 as a source: four edges,
  none with a string on the supplied side, and no warning.
\<close>

theorem non_string_ids_are_emitted:
  "map_sum id (\<lambda>acc. (relationships acc, warnings acc))
     (process_entities ''process''
        [PDict [(PStr ''entityId'', PStr ''E1''),
                (PStr ''fromRelationships'',
                 PDict [(PStr ''runsOn'',
                         PList [PInt 42, PBool True,
                                PDict [(PStr ''id'', PDict [(PStr ''x'', PInt 1)])]])]),
                (PStr ''toRelationships'',
                 PDict [(PStr ''isInstanceOf'', PList [PInt 7])])]]) =
   Inr ([\<lparr>source = PStr ''E1'', target = PInt 42, rel_type = PStr ''runsOn''\<rparr>,
         \<lparr>source = PStr ''E1'', target = PBool True, rel_type = PStr ''runsOn''\<rparr>,
         \<lparr>source = PStr ''E1'', target = PDict [(PStr ''x'', PInt 1)], rel_type = PStr ''runsOn''\<rparr>,
         \<lparr>source = PInt 7, target = PStr ''E1'', rel_type = PStr ''isInstanceOf''\<rparr>],
        [])"
  by code_simp

subsection \<open>The two metadata folds\<close>

lemma fold_dict_set_last:
  "dict_get (foldl (\<lambda>acc (i, item). dict_set acc (K i item) (V i item)) acc0 xs) k =
     (case filter (\<lambda>(i, item). K i item = k) xs of
        [] \<Rightarrow> dict_get acc0 k
      | y # ys \<Rightarrow> Some (V (fst (last (y # ys))) (snd (last (y # ys)))))"
proof (induction xs rule: rev_induct)
  case Nil
  then show ?case by simp
next
  case (snoc x xs)
  obtain i item where x: "x = (i, item)" by (cases x)
  show ?case
    using snoc.IH by (auto simp: x dict_get_set split: list.splits)
qed

lemma dict_store_keys:
  "map fst (dict_store d (PStr k) v) =
     (if PStr k \<in> set (map fst d) then map fst d else map fst d @ [PStr k])"
  by (induction d) (auto simp: rev_image_eqI)

lemma fold_dict_set_distinct:
  "distinct (map fst acc0) \<Longrightarrow>
     distinct (map fst (foldl (\<lambda>acc (i, item). dict_set acc (K i item) (V i item)) acc0 xs))"
proof (induction xs rule: rev_induct)
  case Nil
  then show ?case by simp
next
  case (snoc x xs)
  obtain i item where x: "x = (i, item)" by (cases x)
  show ?case
    using snoc by (simp add: x dict_set_def dict_store_keys)
qed

lemma clean_releasesVersion_other:
  "k \<noteq> ''releasesVersion'' \<Longrightarrow> dict_get (clean_releasesVersion props) k = dict_get props k"
  by (auto simp: clean_releasesVersion_def dict_get_set split: option.splits pyval.splits)

lemma clean_osServices_other:
  "k \<noteq> ''osServices'' \<Longrightarrow> dict_get (clean_osServices props) k = dict_get props k"
  by (auto simp: clean_osServices_def dict_get_set split: option.splits pyval.splits)

lemma clean_log_field_other:
  "k \<noteq> name \<Longrightarrow> dict_get (clean_log_field name props) k = dict_get props k"
  by (auto simp: clean_log_field_def dict_get_set split: option.splits pyval.splits)

lemma clean_customPgMetadata_list:
  "dict_get props ''customPgMetadata'' = Some (PList items) \<Longrightarrow>
     dict_get (clean_customPgMetadata props) ''customPgMetadata'' =
       Some (PDict (convert_metadata items))"
  by (simp add: clean_customPgMetadata_def dict_get_set)

lemma clean_properties_customPgMetadata:
  assumes "dict_get props ''customPgMetadata'' = Some (PList items)"
  shows "dict_get (clean_properties props) ''customPgMetadata'' =
           Some (PDict (convert_metadata items))"
proof -
  have "dict_get (clean_osServices (clean_releasesVersion props)) ''customPgMetadata'' =
          Some (PList items)"
    using assms by (simp add: clean_osServices_other clean_releasesVersion_other)
  then show ?thesis
    by (simp add: clean_properties_def clean_log_field_other clean_customPgMetadata_list)
qed

lemma clean_properties_field:
  assumes "dict_get e ''properties'' = Some (PDict props)"
  shows "\<exists>c. clean_unsupported_metadata (PDict e) = Inr c \<and>
           dict_get c ''properties'' = Some (PDict (clean_properties props))"
  using assms by (simp add: Let_def dict_get_map_values dict_get_del dict_get_set)

lemma convert_metadata_last:
  "dict_get (convert_metadata items) k =
     (case filter (\<lambda>(i, item). metadata_key i item = k) (enumerate 0 items) of
        [] \<Rightarrow> None
      | y # ys \<Rightarrow> Some (metadata_value (fst (last (y # ys))) (snd (last (y # ys)))))"
  unfolding convert_metadata_def
  using fold_dict_set_last [of metadata_key metadata_value "[]" "enumerate 0 items" k]
  by (simp add: dict_get_def cong: list.case_cong)

lemma convert_metadata_distinct: "distinct (map fst (convert_metadata items))"
  unfolding convert_metadata_def by (rule fold_dict_set_distinct) simp

lemma dict_lookup_all:
  "list_all (\<lambda>kv. P (snd kv)) d \<Longrightarrow> dict_lookup d k = Some v \<Longrightarrow> P v"
  by (induction d) (auto split: if_splits)

lemma dict_store_all:
  "list_all (\<lambda>kv. P (snd kv)) d \<Longrightarrow> P v \<Longrightarrow> list_all (\<lambda>kv. P (snd kv)) (dict_store d k v)"
  by (induction d) auto

lemma metadata_entry_step_result:
  assumes "metadata_entry_step (PDict en) acc = Inr acc'"
  shows "(\<not> py_truthy (py_get en ''key'') \<and> acc' = acc) \<or>
         (py_truthy (py_get en ''key'') \<and>
          acc' = (let t = target_key_of (py_get en ''key'');
                      m1 = (if dict_lookup acc t = None then dict_store acc t (PList []) else acc)
                  in if py_get en ''value'' \<noteq> PNone
                     then (case dict_lookup m1 t of
                             Some (PList vs) \<Rightarrow> dict_store m1 t (PList (vs @ [py_get en ''value'']))
                           | _ \<Rightarrow> m1)
                     else m1))"
proof (cases "py_truthy (py_get en ''key'')")
  case False
  then show ?thesis using assms by simp
next
  case True
  show ?thesis
  proof (cases "py_hashable (py_get en ''key'')")
    case False
    then show ?thesis using assms True by simp
  next
    case h: True
    have "Inr acc' = metadata_entry_step (PDict en) acc" using assms by simp
    then show ?thesis
      unfolding metadata_entry_step.simps Let_def using True h by simp
  qed
qed

lemma metadata_entry_step_lists:
  assumes "metadata_entry_step entry acc = Inr acc'"
    and "list_all (\<lambda>kv. is_list (snd kv)) acc"
  shows "list_all (\<lambda>kv. is_list (snd kv)) acc'"
proof (cases "\<exists>en. entry = PDict en")
  case False
  then have "acc' = acc" using assms(1) by (cases entry) auto
  then show ?thesis using assms(2) by simp
next
  case True
  then obtain en where en: "entry = PDict en" by blast
  let ?t = "target_key_of (py_get en ''key'')"
  let ?m1 = "if dict_lookup acc ?t = None then dict_store acc ?t (PList []) else acc"
  have m1: "list_all (\<lambda>kv. is_list (snd kv)) ?m1"
    using assms(2) dict_store_all [of is_list acc "PList []" ?t] by simp
  have m2: "list_all (\<lambda>kv. is_list (snd kv)) (dict_store ?m1 ?t (PList vs))" for vs
    using m1 dict_store_all [of is_list ?m1 "PList vs" ?t] by simp
  have m3: "list_all (\<lambda>kv. is_list (snd kv))
              (case dict_lookup ?m1 ?t of
                 Some (PList vs) \<Rightarrow> dict_store ?m1 ?t (PList (vs @ [w]))
               | _ \<Rightarrow> ?m1)" for w
  proof (cases "dict_lookup ?m1 ?t")
    case None
    then show ?thesis using m1 by simp
  next
    case (Some v)
    then show ?thesis using m1 m2 by (cases v) simp_all
  qed
  from metadata_entry_step_result [OF assms(1) [unfolded en]]
  show ?thesis
  proof
    assume "\<not> py_truthy (py_get en ''key'') \<and> acc' = acc"
    then show ?thesis using assms(2) by simp
  next
    assume a: "py_truthy (py_get en ''key'') \<and>
          acc' = (let t = target_key_of (py_get en ''key'');
                      m1 = (if dict_lookup acc t = None then dict_store acc t (PList []) else acc)
                  in if py_get en ''value'' \<noteq> PNone
                     then (case dict_lookup m1 t of
                             Some (PList vs) \<Rightarrow> dict_store m1 t (PList (vs @ [py_get en ''value'']))
                           | _ \<Rightarrow> m1)
                     else m1)"
    show ?thesis
    proof (cases "py_get en ''value'' \<noteq> PNone")
      case True
      then have "acc' = (case dict_lookup ?m1 ?t of
                 Some (PList vs) \<Rightarrow> dict_store ?m1 ?t (PList (vs @ [py_get en ''value'']))
               | _ \<Rightarrow> ?m1)"
        using a unfolding Let_def by simp
      then show ?thesis using m3 by simp
    next
      case False
      then have "acc' = ?m1" using a unfolding Let_def by simp
      then show ?thesis using m1 by simp
    qed
  qed
qed

lemma metadata_entry_step_lookup:
  assumes "metadata_entry_step (PDict en) acc = Inr acc'"
    and "list_all (\<lambda>kv. is_list (snd kv)) acc"
  shows "dict_lookup acc' (PStr k) =
     (if py_truthy (py_get en ''key'') \<and> target_key_of (py_get en ''key'') = PStr k
      then Some (PList ((case dict_lookup acc (PStr k) of Some (PList vs) \<Rightarrow> vs | _ \<Rightarrow> []) @
                        (if py_get en ''value'' \<noteq> PNone then [py_get en ''value''] else [])))
      else dict_lookup acc (PStr k))"
proof -
  let ?t = "target_key_of (py_get en ''key'')"
  let ?w = "py_get en ''value''"
  let ?m1 = "if dict_lookup acc ?t = None then dict_store acc ?t (PList []) else acc"
  have l: "\<exists>vs. v = PList vs" if "dict_lookup acc (PStr k) = Some v" for v
    using dict_lookup_all [OF assms(2) that] by (cases v) auto
  from metadata_entry_step_result [OF assms(1)]
  show ?thesis
  proof
    assume "\<not> py_truthy (py_get en ''key'') \<and> acc' = acc"
    then show ?thesis by simp
  next
    assume a: "py_truthy (py_get en ''key'') \<and>
          acc' = (let t = target_key_of (py_get en ''key'');
                      m1 = (if dict_lookup acc t = None then dict_store acc t (PList []) else acc)
                  in if py_get en ''value'' \<noteq> PNone
                     then (case dict_lookup m1 t of
                             Some (PList vs) \<Rightarrow> dict_store m1 t (PList (vs @ [py_get en ''value'']))
                           | _ \<Rightarrow> m1)
                     else m1)"
    then have acc': "acc' = (if ?w \<noteq> PNone
                     then (case dict_lookup ?m1 ?t of
                             Some (PList vs) \<Rightarrow> dict_store ?m1 ?t (PList (vs @ [?w]))
                           | _ \<Rightarrow> ?m1)
                     else ?m1)"
      unfolding Let_def by simp
    show ?thesis
    proof (cases "?t = PStr k")
      case t: True
      obtain vs0 where m1k: "dict_lookup ?m1 (PStr k) = Some (PList vs0)"
        and vs0: "vs0 = (case dict_lookup acc (PStr k) of Some (PList vs) \<Rightarrow> vs | _ \<Rightarrow> [])"
      proof (cases "dict_lookup acc (PStr k)")
        case None
        then show ?thesis using that t by (simp add: dict_lookup_store_str)
      next
        case (Some v)
        then obtain vs where "v = PList vs" using l by blast
        then show ?thesis using that t Some by simp
      qed
      define m1 where "m1 = ?m1"
      have "acc' = (if ?w \<noteq> PNone
                     then (case dict_lookup m1 ?t of
                             Some (PList vs) \<Rightarrow> dict_store m1 ?t (PList (vs @ [?w]))
                           | _ \<Rightarrow> m1)
                     else m1)"
        using acc' unfolding m1_def .
      then have acc'': "acc' = (if ?w \<noteq> PNone
                     then (case dict_lookup m1 (PStr k) of
                             Some (PList vs) \<Rightarrow> dict_store m1 (PStr k) (PList (vs @ [?w]))
                           | _ \<Rightarrow> m1)
                     else m1)"
        unfolding t .
      have m1k': "dict_lookup m1 (PStr k) = Some (PList vs0)"
        using m1k unfolding m1_def .
      have "dict_lookup acc' (PStr k) =
              Some (PList (vs0 @ (if ?w \<noteq> PNone then [?w] else [])))"
        unfolding acc'' using m1k' by (simp add: dict_lookup_store_str)
      then show ?thesis using a t vs0 by simp
    next
      case t: False
      have m1k: "dict_lookup ?m1 (PStr k) = dict_lookup acc (PStr k)"
        using t by (simp add: dict_lookup_store_str)
      have "dict_lookup (case dict_lookup ?m1 ?t of
                 Some (PList vs) \<Rightarrow> dict_store ?m1 ?t (PList (vs @ [?w]))
               | _ \<Rightarrow> ?m1) (PStr k) = dict_lookup acc (PStr k)"
      proof (cases "dict_lookup ?m1 ?t")
        case None
        then show ?thesis using m1k by simp
      next
        case (Some v)
        then show ?thesis using m1k t by (cases v) (simp_all add: dict_lookup_store_str)
      qed
      then have "dict_lookup acc' (PStr k) = dict_lookup acc (PStr k)"
        unfolding acc' using m1k by simp
      then show ?thesis using t by simp
    qed
  qed
qed

lemma metadata_fold_lookup:
  assumes "py_for metadata_entry_step entries acc = Inr out"
    and "list_all (\<lambda>kv. is_list (snd kv)) acc"
  shows "dict_lookup out (PStr k) =
     (if entries_with_target k entries = [] then dict_lookup acc (PStr k)
      else Some (PList ((case dict_lookup acc (PStr k) of Some (PList vs) \<Rightarrow> vs | _ \<Rightarrow> []) @
                        values_with_target k entries)))"
  using assms
proof (induction entries arbitrary: acc)
  case Nil
  then show ?case by simp
next
  case (Cons entry entries)
  obtain acc1 where s: "metadata_entry_step entry acc = Inr acc1"
    and r: "py_for metadata_entry_step entries acc1 = Inr out"
    using Cons.prems(1) by (auto split: sum.splits)
  have inv1: "list_all (\<lambda>kv. is_list (snd kv)) acc1"
    using metadata_entry_step_lists [OF s Cons.prems(2)] .
  note ih = Cons.IH [OF r inv1]
  show ?case
  proof (cases "\<exists>en. entry = PDict en")
    case True
    then obtain en where en: "entry = PDict en" by blast
    show ?thesis
    proof (cases "py_truthy (py_get en ''key'') \<and> target_key_of (py_get en ''key'') = PStr k")
      case c: True
      have l: "dict_lookup acc1 (PStr k) =
          Some (PList ((case dict_lookup acc (PStr k) of Some (PList vs) \<Rightarrow> vs | _ \<Rightarrow> []) @
                       (if py_get en ''value'' \<noteq> PNone then [py_get en ''value''] else [])))"
        using metadata_entry_step_lookup [OF s [unfolded en] Cons.prems(2), of k] c by simp
      show ?thesis
        unfolding ih l using c by (simp add: en values_with_target_def)
    next
      case c: False
      have l: "dict_lookup acc1 (PStr k) = dict_lookup acc (PStr k)"
        using metadata_entry_step_lookup [OF s [unfolded en] Cons.prems(2), of k] c by simp
      show ?thesis
        unfolding ih l using c by (auto simp: en values_with_target_def)
    qed
  next
    case False
    then have a: "acc1 = acc" using s by (cases entry) auto
    have e: "entries_with_target k (entry # entries) = entries_with_target k entries"
      using False by (cases entry) auto
    show ?thesis
      unfolding ih a values_with_target_def e by simp
  qed
qed

lemma normalize_with_metadata:
  assumes "dict_get data ''properties'' = Some (PDict dprops)"
    and "dict_get dprops ''metadata'' = Some (PList entries)"
  shows "\<exists>data3 props3.
     normalize_process_group_v2_to_v1 data =
       (case py_for metadata_entry_step entries [] of
          Inl e \<Rightarrow> Inl e
        | Inr meta_out \<Rightarrow>
            Inr (dict_set (if meta_out \<noteq> [] then dict_set data3 ''metadata'' (PDict meta_out)
                           else data3) ''properties'' (PDict props3)))"
proof -
  have ne: "dprops \<noteq> []" using assms(2) by (auto simp: dict_get_def)
  have p: "py_get data ''properties'' = PDict dprops"
    using assms(1) by (simp add: py_get_def)
  have m: "py_get (dict_del (dict_del dprops ''listenPorts'') ''softwareTechnologies'') ''metadata'' =
             PList entries"
    using assms(2) by (simp add: py_get_def dict_get_del)
  show ?thesis
    unfolding normalize_process_group_v2_to_v1_def Let_def p
    using ne m by (auto split: sum.splits)
qed

lemma metadata_fold_succeeds:
  "\<forall>en. PDict en \<in> set entries \<longrightarrow> py_hashable (py_get en ''key'') \<Longrightarrow>
     \<exists>out. py_for metadata_entry_step entries acc = Inr out"
proof (induction entries arbitrary: acc)
  case Nil
  then show ?case by simp
next
  case (Cons entry entries)
  have "\<exists>acc1. metadata_entry_step entry acc = Inr acc1"
    using Cons.prems by (cases entry) (auto simp: Let_def)
  then obtain acc1 where "metadata_entry_step entry acc = Inr acc1" by blast
  moreover obtain out where "py_for metadata_entry_step entries acc1 = Inr out"
    using Cons.IH [of acc1] Cons.prems by auto
  ultimately show ?case by simp
qed

text \<open>
  Claim C7. The two folds differ. (1) Cleaning turns a \<open>properties.customPgMetadata\<close>
  list into one flat record with distinct keys, in which each resolved key holds the
  value of the last entry with that key (last write wins). (2) The process-group
  reshaping turns a \<open>properties.metadata\<close> list into a top-level \<open>metadata\<close> record
  of arrays: under each target key, the values of all entries mapped to that key, in
  list order; and it returns whenever every entry's key can be hashed.
\<close>

theorem metadata_folds:
  "(dict_get e ''properties'' = Some (PDict props) \<and>
    dict_get props ''customPgMetadata'' = Some (PList items) \<longrightarrow>
      (\<exists>c props' folded.
         clean_unsupported_metadata (PDict e) = Inr c \<and>
         dict_get c ''properties'' = Some (PDict props') \<and>
         dict_get props' ''customPgMetadata'' = Some (PDict folded) \<and>
         distinct (map fst folded) \<and>
         (\<forall>key. dict_get folded key =
            (case filter (\<lambda>(i, item). metadata_key i item = key) (enumerate 0 items) of
               [] \<Rightarrow> None
             | y # ys \<Rightarrow> Some (metadata_value (fst (last (y # ys))) (snd (last (y # ys)))))))) \<and>
   (dict_get data ''properties'' = Some (PDict dprops) \<and>
    dict_get dprops ''metadata'' = Some (PList entries) \<longrightarrow>
      ((\<forall>en. PDict en \<in> set entries \<longrightarrow> py_hashable (py_get en ''key'')) \<longrightarrow>
         (\<exists>data'. normalize_process_group_v2_to_v1 data = Inr data')) \<and>
      (\<forall>data' k. normalize_process_group_v2_to_v1 data = Inr data' \<and>
          entries_with_target k entries \<noteq> [] \<longrightarrow>
          (\<exists>meta_out. dict_get data' ''metadata'' = Some (PDict meta_out) \<and>
             dict_get meta_out k = Some (PList (values_with_target k entries)))))"
proof -
  have one: "\<exists>c props' folded.
         clean_unsupported_metadata (PDict e) = Inr c \<and>
         dict_get c ''properties'' = Some (PDict props') \<and>
         dict_get props' ''customPgMetadata'' = Some (PDict folded) \<and>
         distinct (map fst folded) \<and>
         (\<forall>key. dict_get folded key =
            (case filter (\<lambda>(i, item). metadata_key i item = key) (enumerate 0 items) of
               [] \<Rightarrow> None
             | y # ys \<Rightarrow> Some (metadata_value (fst (last (y # ys))) (snd (last (y # ys))))))"
    if a: "dict_get e ''properties'' = Some (PDict props)"
      "dict_get props ''customPgMetadata'' = Some (PList items)"
  proof -
    obtain c where c: "clean_unsupported_metadata (PDict e) = Inr c"
      "dict_get c ''properties'' = Some (PDict (clean_properties props))"
      using clean_properties_field [OF a(1)] by blast
    show ?thesis
      using c clean_properties_customPgMetadata [OF a(2)] convert_metadata_distinct [of items]
        convert_metadata_last [of items]
      by blast
  qed
  have two: "\<exists>meta_out. dict_get data' ''metadata'' = Some (PDict meta_out) \<and>
             dict_get meta_out k = Some (PList (values_with_target k entries))"
    if a: "dict_get data ''properties'' = Some (PDict dprops)"
      "dict_get dprops ''metadata'' = Some (PList entries)"
      "normalize_process_group_v2_to_v1 data = Inr data'"
      "entries_with_target k entries \<noteq> []" for data' k
  proof -
    obtain data3 props3 where n: "normalize_process_group_v2_to_v1 data =
       (case py_for metadata_entry_step entries [] of
          Inl e \<Rightarrow> Inl e
        | Inr meta_out \<Rightarrow>
            Inr (dict_set (if meta_out \<noteq> [] then dict_set data3 ''metadata'' (PDict meta_out)
                           else data3) ''properties'' (PDict props3)))"
      using normalize_with_metadata [OF a(1) a(2)] by blast
    obtain meta_out where f: "py_for metadata_entry_step entries [] = Inr meta_out"
      using n a(3) by (cases "py_for metadata_entry_step entries []") auto
    have l: "dict_lookup meta_out (PStr k) = Some (PList (values_with_target k entries))"
      using metadata_fold_lookup [OF f, of k] a(4) by simp
    then have ne: "meta_out \<noteq> []" by auto
    have "data' = dict_set (dict_set data3 ''metadata'' (PDict meta_out)) ''properties'' (PDict props3)"
      using n a(3) f ne by simp
    then have "dict_get data' ''metadata'' = Some (PDict meta_out)"
      by (simp add: dict_get_set)
    moreover have "dict_get meta_out k = Some (PList (values_with_target k entries))"
      using l by (simp add: dict_get_def)
    ultimately show ?thesis by blast
  qed
  have three: "\<exists>data'. normalize_process_group_v2_to_v1 data = Inr data'"
    if a: "dict_get data ''properties'' = Some (PDict dprops)"
      "dict_get dprops ''metadata'' = Some (PList entries)"
      "\<forall>en. PDict en \<in> set entries \<longrightarrow> py_hashable (py_get en ''key'')"
  proof -
    obtain out where "py_for metadata_entry_step entries [] = Inr out"
      using metadata_fold_succeeds [OF a(3)] by blast
    then show ?thesis
      using normalize_with_metadata [OF a(1) a(2)] by auto
  qed
  show ?thesis
    using one two three by blast
qed

theorem metadata_folds_witness:
  "(\<exists>c props'.
      clean_unsupported_metadata
        (PDict [(PStr ''properties'',
                 PDict [(PStr ''customPgMetadata'',
                         PList [PDict [(PStr ''key'', PStr ''a''), (PStr ''value'', PInt 1)],
                                PDict [(PStr ''key'', PStr ''a''), (PStr ''value'', PInt 2)]])])]) =
        Inr c \<and>
      dict_get c ''properties'' = Some (PDict props') \<and>
      (\<exists>folded. dict_get props' ''customPgMetadata'' = Some (PDict folded) \<and>
         distinct (map fst folded) \<and> dict_get folded ''a'' = Some (PInt 2) \<and>
         dict_get folded ''b'' = None)) \<and>
   (\<exists>data' meta_out.
      normalize_process_group_v2_to_v1
        [(PStr ''properties'',
          PDict [(PStr ''metadata'',
                  PList [PDict [(PStr ''key'', PStr ''EXE_NAME''), (PStr ''value'', PStr ''x'')],
                         PDict [(PStr ''key'', PStr ''EXE_NAME''), (PStr ''value'', PStr ''y'')]])])] =
        Inr data' \<and>
      dict_get data' ''metadata'' = Some (PDict meta_out) \<and>
      dict_get meta_out ''executables'' = Some (PList [PStr ''x'', PStr ''y'']))"
proof -
  let ?items = "[PDict [(PStr ''key'', PStr ''a''), (PStr ''value'', PInt 1)],
                 PDict [(PStr ''key'', PStr ''a''), (PStr ''value'', PInt 2)]]"
  let ?props = "[(PStr ''customPgMetadata'', PList ?items)]"
  let ?e = "[(PStr ''properties'', PDict ?props)]"
  let ?entries = "[PDict [(PStr ''key'', PStr ''EXE_NAME''), (PStr ''value'', PStr ''x'')],
                   PDict [(PStr ''key'', PStr ''EXE_NAME''), (PStr ''value'', PStr ''y'')]]"
  let ?dprops = "[(PStr ''metadata'', PList ?entries)]"
  let ?data = "[(PStr ''properties'', PDict ?dprops)]"
  have h1: "dict_get ?e ''properties'' = Some (PDict ?props)" by code_simp
  have h2: "dict_get ?props ''customPgMetadata'' = Some (PList ?items)" by code_simp
  have h3: "dict_get ?data ''properties'' = Some (PDict ?dprops)" by code_simp
  have h4: "dict_get ?dprops ''metadata'' = Some (PList ?entries)" by code_simp
  have h5: "\<forall>en. PDict en \<in> set ?entries \<longrightarrow> py_hashable (py_get en ''key'')"
    by (auto simp: py_get_def dict_get_def)
  have h6: "entries_with_target ''executables'' ?entries \<noteq> []" by code_simp
  have v: "values_with_target ''executables'' ?entries = [PStr ''x'', PStr ''y'']" by code_simp
  have ka: "(case filter (\<lambda>(i, item). metadata_key i item = ''a'') (enumerate 0 ?items) of
               [] \<Rightarrow> None
             | y # ys \<Rightarrow> Some (metadata_value (fst (last (y # ys))) (snd (last (y # ys))))) =
            Some (PInt 2)" by code_simp
  have kb: "(case filter (\<lambda>(i, item). metadata_key i item = ''b'') (enumerate 0 ?items) of
               [] \<Rightarrow> None
             | y # ys \<Rightarrow> Some (metadata_value (fst (last (y # ys))) (snd (last (y # ys))))) =
            None" by code_simp
  note m = metadata_folds [of ?e ?props ?items ?data ?dprops ?entries]
  from m h1 h2 obtain c props' folded where
    c: "clean_unsupported_metadata (PDict ?e) = Inr c"
       "dict_get c ''properties'' = Some (PDict props')"
       "dict_get props' ''customPgMetadata'' = Some (PDict folded)"
       "distinct (map fst folded)"
       "\<forall>key. dict_get folded key =
            (case filter (\<lambda>(i, item). metadata_key i item = key) (enumerate 0 ?items) of
               [] \<Rightarrow> None
             | y # ys \<Rightarrow> Some (metadata_value (fst (last (y # ys))) (snd (last (y # ys)))))"
    by blast
  have fa: "dict_get folded ''a'' = Some (PInt 2)" using c(5) ka by simp
  have fb: "dict_get folded ''b'' = None" using c(5) kb by simp
  from m h3 h4 h5 obtain data' where
    d: "normalize_process_group_v2_to_v1 ?data = Inr data'" by blast
  from m h3 h4 h6 d obtain meta_out where
    mo: "dict_get data' ''metadata'' = Some (PDict meta_out)"
        "dict_get meta_out ''executables'' = Some (PList (values_with_target ''executables'' ?entries))"
    by blast
  show ?thesis
    using c(1-4) fa fb d mo unfolding v by blast
qed

subsection \<open>Technology and monitoring-state labels\<close>

lemma software_tech_loop:
  "py_for software_tech_step techs tags = Inr tags' \<Longrightarrow>
     tags' = tags @ [PStr label. PDict tech \<leftarrow> techs, Inr label \<leftarrow> [tech_label tech], label \<noteq> []]"
proof (induction techs arbitrary: tags)
  case Nil
  then show ?case by simp
next
  case (Cons t techs)
  obtain tags1 where s: "software_tech_step t tags = Inr tags1"
    and r: "py_for software_tech_step techs tags1 = Inr tags'"
    using Cons.prems by (auto split: sum.splits)
  have "tags1 = tags @ [PStr label. PDict tech \<leftarrow> [t], Inr label \<leftarrow> [tech_label tech], label \<noteq> []]"
    using s by (cases t) (auto split: sum.splits)
  then show ?case
    using Cons.IH [OF r] by (simp cong: pyval.case_cong)
qed

lemma monitoring_state_tags_stringify:
  "monitoring_state_tags (stringify_number v) = monitoring_state_tags v"
  by (cases v) simp_all

lemma dict_get_topology_tags:
  "dict_get (dict_update d [(PStr ''identifiers'', i), (PStr ''tags'', t), (PStr ''component_type'', c)])
     ''tags'' = Some t"
  by (simp add: dict_update_def dict_get_def dict_lookup_store_str)

lemma processed_tags:
  assumes "process_entity_to_component (PDict e) ctype = Inr p"
    and "clean_unsupported_metadata (PDict e) = Inr c"
  shows "\<exists>tags0 zones tags3.
           extract_tags c = Inr tags0 \<and> extract_management_zones c = Inr zones \<and>
           (if py_truthy (py_get_default c ''softwareTechnologies'' (PList []))
            then (case py_iter (py_get_default c ''softwareTechnologies'' (PList [])) of
                    Inl e \<Rightarrow> Inl e
                  | Inr techs \<Rightarrow>
                      py_for software_tech_step techs
                        (tags0 @ zones @ (if py_truthy (entityId p) then [entityId p] else [])))
            else Inr (tags0 @ zones @ (if py_truthy (entityId p) then [entityId p] else []))) =
             Inr tags3 \<and>
           dict_get (component p) ''tags'' =
             Some (PList (tags3 @ monitoring_state_tags (py_get c ''monitoringState'')))"
  using assms
  unfolding process_entity_to_component_def Let_def
  by (auto simp: dict_get_topology_tags split: sum.splits if_splits)

text \<open>
  Claim C6 (amended). The technology and monitoring-state labels do not depend on the
  kind: for every kind for which the entity is accepted, its tag list is the labels of
  its \<open>tags\<close> records, its management-zone labels and its identifier, followed by one
  colon-joined \<open>type:edition:version\<close> label (absent segments skipped, no label when all
  are absent) for each record of its top-level \<open>softwareTechnologies\<close> list, followed by
  the \<open>actualMonitoringState\<close> and \<open>expectedMonitoringState\<close> labels of its top-level
  \<open>monitoringState\<close> record; and every other kind that accepts the entity gives the same
  tag list.
\<close>

theorem labels_for_every_kind:
  assumes "process_entity_to_component (PDict e) ctype = Inr p"
    and "py_get_default e ''softwareTechnologies'' (PList []) = PList techs"
  shows "(\<exists>c tags0 zones.
            clean_unsupported_metadata (PDict e) = Inr c \<and>
            extract_tags c = Inr tags0 \<and> extract_management_zones c = Inr zones \<and>
            dict_get (component p) ''tags'' =
              Some (PList (tags0 @ zones @ (if py_truthy (entityId p) then [entityId p] else []) @
                     [PStr label. PDict tech \<leftarrow> techs, Inr label \<leftarrow> [tech_label tech], label \<noteq> []] @
                     monitoring_state_tags (py_get e ''monitoringState'')))) \<and>
         (\<forall>ctype' p'. process_entity_to_component (PDict e) ctype' = Inr p' \<longrightarrow>
            dict_get (component p') ''tags'' = dict_get (component p) ''tags'')"
proof -
  let ?labels = "[PStr label. PDict tech \<leftarrow> techs, Inr label \<leftarrow> [tech_label tech], label \<noteq> []]"
  obtain c where c: "clean_unsupported_metadata (PDict e) = Inr c"
    using clean_dict_succeeds by blast
  have k: "dict_get c k = map_option stringify_number (dict_get e k)"
    if "k \<noteq> ''properties''" "k \<noteq> ''lastSeenTimestamp''" for k
    using clean_keeps_field [OF c that] .
  have st: "py_get_default c ''softwareTechnologies'' (PList []) = PList techs"
    using assms(2) by (auto simp: py_get_default_def k split: option.splits)
  have ms: "monitoring_state_tags (py_get c ''monitoringState'') =
            monitoring_state_tags (py_get e ''monitoringState'')"
    by (cases "dict_get e ''monitoringState''")
       (simp_all add: py_get_def k monitoring_state_tags_stringify)
  have tags: "\<exists>tags0 zones.
            extract_tags c = Inr tags0 \<and> extract_management_zones c = Inr zones \<and>
            dict_get (component q) ''tags'' =
              Some (PList (tags0 @ zones @ (if py_truthy (entityId q) then [entityId q] else []) @
                     ?labels @ monitoring_state_tags (py_get e ''monitoringState'')))"
    if q: "process_entity_to_component (PDict e) ct = Inr q" for ct q
  proof -
    let ?st = "py_get_default c ''softwareTechnologies'' (PList [])"
    obtain tags0 zones tags3 where t: "extract_tags c = Inr tags0"
        "extract_management_zones c = Inr zones"
        "(if py_truthy ?st
          then (case py_iter ?st of
                  Inl e \<Rightarrow> Inl e
                | Inr techs \<Rightarrow>
                    py_for software_tech_step techs
                      (tags0 @ zones @ (if py_truthy (entityId q) then [entityId q] else [])))
          else Inr (tags0 @ zones @ (if py_truthy (entityId q) then [entityId q] else []))) =
         Inr tags3"
        "dict_get (component q) ''tags'' =
           Some (PList (tags3 @ monitoring_state_tags (py_get c ''monitoringState'')))"
      using processed_tags [OF q c] by blast
    have t3: "(if techs \<noteq> []
          then py_for software_tech_step techs
                 (tags0 @ zones @ (if py_truthy (entityId q) then [entityId q] else []))
          else Inr (tags0 @ zones @ (if py_truthy (entityId q) then [entityId q] else []))) =
         Inr tags3"
      using t(3) unfolding st by (simp cong: if_cong)
    have "tags3 = (tags0 @ zones @ (if py_truthy (entityId q) then [entityId q] else [])) @ ?labels"
    proof (cases "techs = []")
      case True
      then show ?thesis using t3 by simp
    next
      case False
      then have "py_for software_tech_step techs
                   (tags0 @ zones @ (if py_truthy (entityId q) then [entityId q] else [])) =
                 Inr tags3"
        using t3 by simp
      then show ?thesis by (rule software_tech_loop)
    qed
    then show ?thesis
      using t(1,2,4) ms by simp
  qed
  have id: "entityId q = py_get_default c ''entityId'' (PStr [])"
    if "process_entity_to_component (PDict e) ct = Inr q" for ct q
    using processed_fields(1) [OF that c] .
  have same: "dict_get (component p') ''tags'' = dict_get (component p) ''tags''"
    if q: "process_entity_to_component (PDict e) ctype' = Inr p'" for ctype' p'
    using tags [OF q] tags [OF assms(1)] id [OF q] id [OF assms(1)] by auto
  show ?thesis
    using c tags [OF assms(1)] same by blast
qed

theorem labels_for_every_kind_witness:
  "\<exists>p p'.
     process_entity_to_component
       (PDict [(PStr ''entityId'', PStr ''PG1''),
               (PStr ''tags'', PList [PDict [(PStr ''key'', PStr ''env''), (PStr ''value'', PStr ''prod'')]]),
               (PStr ''softwareTechnologies'',
                PList [PDict [(PStr ''type'', PStr ''JAVA''), (PStr ''edition'', PStr ''OpenJDK''),
                              (PStr ''version'', PStr ''11'')],
                       PDict [(PStr ''type'', PStr ''TOMCAT''), (PStr ''version'', PStr ''9'')],
                       PDict []]),
               (PStr ''monitoringState'',
                PDict [(PStr ''actualMonitoringState'', PStr ''ON''),
                       (PStr ''expectedMonitoringState'', PStr ''OFF'')])]) ''process-group'' = Inr p \<and>
     dict_get (component p) ''tags'' =
       Some (PList [PStr ''env:prod'', PStr ''PG1'', PStr ''JAVA:OpenJDK:11'', PStr ''TOMCAT:9'',
                    PStr ''actualMonitoringState:ON'', PStr ''expectedMonitoringState:OFF'']) \<and>
     process_entity_to_component
       (PDict [(PStr ''entityId'', PStr ''PG1''),
               (PStr ''tags'', PList [PDict [(PStr ''key'', PStr ''env''), (PStr ''value'', PStr ''prod'')]]),
               (PStr ''softwareTechnologies'',
                PList [PDict [(PStr ''type'', PStr ''JAVA''), (PStr ''edition'', PStr ''OpenJDK''),
                              (PStr ''version'', PStr ''11'')],
                       PDict [(PStr ''type'', PStr ''TOMCAT''), (PStr ''version'', PStr ''9'')],
                       PDict []]),
               (PStr ''monitoringState'',
                PDict [(PStr ''actualMonitoringState'', PStr ''ON''),
                       (PStr ''expectedMonitoringState'', PStr ''OFF'')])]) ''service'' = Inr p' \<and>
     dict_get (component p') ''tags'' = dict_get (component p) ''tags''"
proof -
  let ?techs = "[PDict [(PStr ''type'', PStr ''JAVA''), (PStr ''edition'', PStr ''OpenJDK''),
                        (PStr ''version'', PStr ''11'')],
                 PDict [(PStr ''type'', PStr ''TOMCAT''), (PStr ''version'', PStr ''9'')],
                 PDict []]"
  let ?e = "[(PStr ''entityId'', PStr ''PG1''),
             (PStr ''tags'', PList [PDict [(PStr ''key'', PStr ''env''), (PStr ''value'', PStr ''prod'')]]),
             (PStr ''softwareTechnologies'', PList ?techs),
             (PStr ''monitoringState'',
              PDict [(PStr ''actualMonitoringState'', PStr ''ON''),
                     (PStr ''expectedMonitoringState'', PStr ''OFF'')])]"
  have "\<not> isl (process_entity_to_component (PDict ?e) ''process-group'')"
    by code_simp
  then obtain p where p: "process_entity_to_component (PDict ?e) ''process-group'' = Inr p"
    by (cases "process_entity_to_component (PDict ?e) ''process-group''") auto
  have "\<not> isl (process_entity_to_component (PDict ?e) ''service'')"
    by code_simp
  then obtain p' where p': "process_entity_to_component (PDict ?e) ''service'' = Inr p'"
    by (cases "process_entity_to_component (PDict ?e) ''service''") auto
  have h2: "py_get_default ?e ''softwareTechnologies'' (PList []) = PList ?techs" by code_simp
  have c: "clean_unsupported_metadata (PDict ?e) = Inr ?e" by code_simp
  have t0: "extract_tags ?e = Inr [PStr ''env:prod'']" by code_simp
  have z: "extract_management_zones ?e = Inr []" by code_simp
  have l: "[PStr label. PDict tech \<leftarrow> ?techs, Inr label \<leftarrow> [tech_label tech], label \<noteq> []] =
           [PStr ''JAVA:OpenJDK:11'', PStr ''TOMCAT:9'']" by code_simp
  have m: "monitoring_state_tags (py_get ?e ''monitoringState'') =
           [PStr ''actualMonitoringState:ON'', PStr ''expectedMonitoringState:OFF'']" by code_simp
  have i: "entityId p = PStr ''PG1''"
    using processed_fields(1) [OF p c] by (simp add: py_get_default_def dict_get_def)
  note r = labels_for_every_kind [OF p h2]
  have "dict_get (component p) ''tags'' =
       Some (PList [PStr ''env:prod'', PStr ''PG1'', PStr ''JAVA:OpenJDK:11'', PStr ''TOMCAT:9'',
                    PStr ''actualMonitoringState:ON'', PStr ''expectedMonitoringState:OFF''])"
    using r unfolding l m c i by (auto simp: t0 z)
  moreover have "dict_get (component p') ''tags'' = dict_get (component p) ''tags''"
    using r p' by blast
  ultimately show ?thesis
    using p p' by blast
qed

text \<open>
  The claim as stated fails: an entity of kind \<open>process\<close> that carries a top-level
  \<open>softwareTechnologies\<close> list and a \<open>monitoringState\<close> record receives the labels too.
\<close>

theorem process_receives_technology_labels:
  "\<exists>p. process_entity_to_component
          (PDict [(PStr ''entityId'', PStr ''P1''),
                  (PStr ''softwareTechnologies'',
                   PList [PDict [(PStr ''type'', PStr ''JAVA''), (PStr ''edition'', PStr ''OpenJDK''),
                                 (PStr ''version'', PStr ''11'')]]),
                  (PStr ''monitoringState'',
                   PDict [(PStr ''actualMonitoringState'', PStr ''ON'')])]) ''process'' = Inr p \<and>
        component_type p = ''process'' \<and>
        dict_get (component p) ''tags'' =
          Some (PList [PStr ''P1'', PStr ''JAVA:OpenJDK:11'', PStr ''actualMonitoringState:ON''])"
proof -
  let ?e = "[(PStr ''entityId'', PStr ''P1''),
             (PStr ''softwareTechnologies'',
              PList [PDict [(PStr ''type'', PStr ''JAVA''), (PStr ''edition'', PStr ''OpenJDK''),
                            (PStr ''version'', PStr ''11'')]]),
             (PStr ''monitoringState'',
              PDict [(PStr ''actualMonitoringState'', PStr ''ON'')])]"
  have "(case process_entity_to_component (PDict ?e) ''process'' of
           Inl x \<Rightarrow> False
         | Inr p \<Rightarrow> component_type p = ''process'' \<and>
             dict_get (component p) ''tags'' =
               Some (PList [PStr ''P1'', PStr ''JAVA:OpenJDK:11'', PStr ''actualMonitoringState:ON'']))"
    by code_simp
  then show ?thesis
    by (cases "process_entity_to_component (PDict ?e) ''process''") auto
qed

subsection \<open>The token provider\<close>

lemma refresh_token_trace:
  "\<exists>r. trace (snd (refresh_token ev w)) =
         trace w @ [Sent (Post (auth_url (auth_config (authenticator w)))
                               (token_form (auth_config (authenticator w)))) r]"
  by (auto simp: refresh_token_def requests_post_def send_def time_time_def Let_def
           split: sum.splits pyval.splits option.splits prod.splits if_splits)


lemma get_token_cached:
  assumes "py_truthy (jwt_token (authenticator w))"
    and "clock ev (ticks w) < expiry_epoch (authenticator w)"
  shows "get_token ev w = (Inr (jwt_token (authenticator w)), w\<lparr>ticks := Suc (ticks w)\<rparr>)"
  using assms by (simp add: get_token_def time_time_def)

lemma get_token_refreshes:
  assumes "\<not> py_truthy (jwt_token (authenticator w)) \<or> expiry_epoch (authenticator w) \<le> clock ev (ticks w)"
  shows "get_token ev w =
           (case refresh_token ev (w\<lparr>ticks := Suc (ticks w)\<rparr>) of
              (Inl e, w2) \<Rightarrow> (Inl e, w2)
            | (Inr u, w2) \<Rightarrow> (Inr (jwt_token (authenticator w2)), w2))"
  using assms by (auto simp: get_token_def time_time_def)

lemma get_token_exchange:
  assumes "\<not> py_truthy (jwt_token (authenticator w)) \<or> expiry_epoch (authenticator w) \<le> clock ev (ticks w)"
  shows "\<exists>r. trace (snd (get_token ev w)) =
         trace w @ [Sent (Post (auth_url (auth_config (authenticator w)))
                               (token_form (auth_config (authenticator w)))) r]"
proof -
  let ?w1 = "w\<lparr>ticks := Suc (ticks w)\<rparr>"
  obtain r where "trace (snd (refresh_token ev ?w1)) =
         trace ?w1 @ [Sent (Post (auth_url (auth_config (authenticator ?w1)))
                               (token_form (auth_config (authenticator ?w1)))) r]"
    using refresh_token_trace by blast
  then show ?thesis
    unfolding get_token_refreshes [OF assms]
    by (auto split: prod.splits sum.splits)
qed



subsection \<open>The retry after an authentication rejection\<close>



lemma do_request_result:
  assumes "get_token ev w = (Inr token, w2)"
  shows "do_request ev u params w =
           (respond ev (trace w2) (Get u params (bearer token)),
            w2\<lparr>trace := trace w2 @ [Sent (Get u params (bearer token))
                                        (respond ev (trace w2) (Get u params (bearer token)))]\<rparr>)"
  using assms by (simp add: do_request_def session_get_def send_def Let_def)







subsection \<open>The page requests of one fetch\<close>

lemma gets_append: "gets (a @ b) = gets a @ gets b"
  by (induction a rule: gets.induct) auto

lemma get_token_gets:
  "\<exists>ext. trace (snd (get_token ev w)) = trace w @ ext \<and> gets ext = []"
proof (cases "\<not> py_truthy (jwt_token (authenticator w)) \<or>
              expiry_epoch (authenticator w) \<le> clock ev (ticks w)")
  case True
  obtain r where "trace (snd (get_token ev w)) = trace w @ [Sent (token_request w) r]"
    using get_token_exchange [OF True] by (auto simp: token_request_def)
  moreover have "gets [Sent (token_request w) r] = []"
    by (simp add: token_request_def)
  ultimately show ?thesis by blast
next
  case False
  then have "trace (snd (get_token ev w)) = trace w @ []"
    using get_token_cached [of w ev] by auto
  then show ?thesis by force
qed

lemma do_request_gets:
  assumes "do_request ev u ps w = (r, w1)"
  shows "\<exists>ext. trace w1 = trace w @ ext \<and> ((gets ext = [] \<and> isl r) \<or> gets ext = [(ps, r)])"
proof -
  obtain t w0 where g: "get_token ev w = (t, w0)"
    by (cases "get_token ev w")
  obtain ext0 where e0: "trace w0 = trace w @ ext0" "gets ext0 = []"
    using get_token_gets [of ev w] g by auto
  show ?thesis
  proof (cases t)
    case (Inl e)
    then have "r = Inl e" "w1 = w0"
      using assms g by (simp_all add: do_request_def)
    then show ?thesis using e0 by auto
  next
    case (Inr token)
    have "do_request ev u ps w =
           (respond ev (trace w0) (Get u ps (bearer token)),
            w0\<lparr>trace := trace w0 @ [Sent (Get u ps (bearer token))
                                        (respond ev (trace w0) (Get u ps (bearer token)))]\<rparr>)"
      using do_request_result g Inr by blast
    then have "trace w1 = trace w @ (ext0 @ [Sent (Get u ps (bearer token)) r])"
      using assms e0 by auto
    moreover have "gets (ext0 @ [Sent (Get u ps (bearer token)) r]) = [(ps, r)]"
      using e0 by (simp add: gets_append)
    ultimately show ?thesis by blast
  qed
qed

lemma fetch_json_gets:
  assumes f: "fetch_json ev u ps w = (res, w')"
  shows "\<exists>ext. trace w' = trace w @ ext \<and>
           ((gets ext = [] \<and> isl res) \<or> (\<exists>r. gets ext = [(ps, r)]) \<or>
            (\<exists>resp r. status_code resp = 401 \<and> gets ext = [(ps, Inr resp), (ps, r)])) \<and>
           (\<forall>v. res = Inr v \<longrightarrow>
              (\<exists>resp. gets ext \<noteq> [] \<and> last (gets ext) = (ps, Inr resp) \<and>
                 status_code resp \<noteq> 401 \<and> json_body resp = Some v))"
proof -
  have finish: "\<exists>resp. r = Inr resp \<and> status_code resp \<noteq> 401 \<and> json_body resp = Some v"
    if "(case r of
           Inl e \<Rightarrow> (Inl e, x)
         | Inr response2 \<Rightarrow>
             (case raise_for_status response2 of
                Inl e \<Rightarrow> (Inl e, x)
              | Inr u \<Rightarrow>
                  (case response_json response2 of
                     Inl e \<Rightarrow> (Inl RuntimeError, x)
                   | Inr v \<Rightarrow> (Inr v, x)))) = (Inr v, y)" for r x v y
    using that
    by (auto simp: raise_for_status_def response_json_def split: sum.splits if_splits option.splits)
  obtain r1 w1 where d1: "do_request ev u ps w = (r1, w1)"
    by (cases "do_request ev u ps w")
  obtain ext1 where e1: "trace w1 = trace w @ ext1"
      "(gets ext1 = [] \<and> isl r1) \<or> gets ext1 = [(ps, r1)]"
    using do_request_gets [OF d1] by blast
  show ?thesis
  proof (cases r1)
    case (Inl e)
    then have "res = Inl e" "w' = w1"
      using f d1 by (simp_all add: fetch_json_def)
    then show ?thesis using e1 by auto
  next
    case r1: (Inr resp)
    then have g1: "gets ext1 = [(ps, Inr resp)]"
      using e1(2) by auto
    show ?thesis
    proof (cases "status_code resp = 401")
      case False
      have ff: "(case r1 of
           Inl e \<Rightarrow> (Inl e, w1)
         | Inr response2 \<Rightarrow>
             (case raise_for_status response2 of
                Inl e \<Rightarrow> (Inl e, w1)
              | Inr u \<Rightarrow>
                  (case response_json response2 of
                     Inl e \<Rightarrow> (Inl RuntimeError, w1)
                   | Inr v \<Rightarrow> (Inr v, w1)))) = (res, w')"
        using f d1 r1 False by (simp add: fetch_json_def)
      then have w: "w' = w1"
        by (auto split: sum.splits)
      have "\<exists>resp'. gets ext1 \<noteq> [] \<and> last (gets ext1) = (ps, Inr resp') \<and>
                 status_code resp' \<noteq> 401 \<and> json_body resp' = Some v" if "res = Inr v" for v
        using finish [where r = r1 and x = w1 and v = v and y = w'] ff that g1 r1 by auto
      then show ?thesis
        using e1(1) g1 w by blast
    next
      case True
      obtain r2 w2 where d2: "do_request ev u ps (invalidate w1) = (r2, w2)"
        by (cases "do_request ev u ps (invalidate w1)")
      obtain ext2 where e2: "trace w2 = trace (invalidate w1) @ ext2"
          "(gets ext2 = [] \<and> isl r2) \<or> gets ext2 = [(ps, r2)]"
        using do_request_gets [OF d2] by blast
      let ?ext = "ext1 @ Invalidated # ext2"
      have t2: "trace w2 = trace w @ ?ext"
        using e1(1) e2(1) by (simp add: invalidate_def)
      have ff: "(case r2 of
           Inl e \<Rightarrow> (Inl e, w2)
         | Inr response2 \<Rightarrow>
             (case raise_for_status response2 of
                Inl e \<Rightarrow> (Inl e, w2)
              | Inr u \<Rightarrow>
                  (case response_json response2 of
                     Inl e \<Rightarrow> (Inl RuntimeError, w2)
                   | Inr v \<Rightarrow> (Inr v, w2)))) = (res, w')"
        using f d1 r1 True d2 by (simp add: fetch_json_def)
      then have w: "w' = w2"
        by (auto split: sum.splits)
      have gg: "gets ?ext = [(ps, Inr resp)] @ gets ext2"
        using g1 by (simp add: gets_append)
      have shape: "(\<exists>r. gets ?ext = [(ps, r)]) \<or>
            (\<exists>resp r. status_code resp = 401 \<and> gets ?ext = [(ps, Inr resp), (ps, r)])"
        using gg e2(2) True by auto
      have "\<exists>resp'. gets ?ext \<noteq> [] \<and> last (gets ?ext) = (ps, Inr resp') \<and>
                 status_code resp' \<noteq> 401 \<and> json_body resp' = Some v" if rv: "res = Inr v" for v
      proof -
        obtain resp' where r': "r2 = Inr resp'" "status_code resp' \<noteq> 401" "json_body resp' = Some v"
          using finish [where r = r2 and x = w2 and v = v and y = w'] ff rv by auto
        then have "gets ext2 = [(ps, Inr resp')]"
          using e2(2) by auto
        then show ?thesis
          using gg r' by auto
      qed
      then show ?thesis
        using t2 w shape by blast
    qed
  qed
qed

lemma v1_page_gets:
  assumes f: "v1_page ev u ps hs w = (res, w')"
  shows "\<exists>ext. trace w' = trace w @ ext \<and>
           ((\<exists>r. gets ext = [(ps, r)]) \<or>
            (\<exists>resp r. status_code resp = 401 \<and> gets ext = [(ps, Inr resp), (ps, r)])) \<and>
           (\<forall>page k hs1. res = Inr (page, k, hs1) \<longrightarrow>
              (\<exists>resp. last (gets ext) = (ps, Inr resp) \<and> status_code resp \<noteq> 401 \<and>
                 next_page_key_header resp = k \<and> json_body resp = Some page))"
proof -
  have finish: "status_code rs0 \<noteq> 401 \<and> next_page_key_header rs0 = k0 \<and>
                json_body rs0 = Some pg0 \<and> y0 = x0"
    if "(case raise_for_status rs0 of
           Inl e \<Rightarrow> (Inl RuntimeError, x0)
         | Inr u \<Rightarrow>
             (case response_json rs0 of
                Inl e \<Rightarrow> (Inl RuntimeError, x0)
              | Inr page_data \<Rightarrow> (Inr (page_data, next_page_key_header rs0, h0), x0))) =
        (Inr (pg0, k0, hs0), y0)" for rs0 x0 h0 pg0 k0 hs0 y0
    using that
    by (auto simp: raise_for_status_def response_json_def split: sum.splits if_splits option.splits)
  have same: "y = x"
    if "(case raise_for_status resp of
           Inl e \<Rightarrow> (Inl RuntimeError, x)
         | Inr u \<Rightarrow>
             (case response_json resp of
                Inl e \<Rightarrow> (Inl RuntimeError, x)
              | Inr page_data \<Rightarrow> (Inr (page_data, next_page_key_header resp, h), x))) =
        (res, y)" for resp x h y
    using that by (auto split: sum.splits)
  let ?rq = "Get u ps hs"
  let ?r1 = "respond ev (trace w) ?rq"
  have s0: "session_get ev u ps hs w = (?r1, w\<lparr>trace := trace w @ [Sent ?rq ?r1]\<rparr>)"
    by (simp add: session_get_def send_def Let_def)
  show ?thesis
  proof (cases ?r1)
    case (Inl e)
    let ?w1 = "w\<lparr>trace := trace w @ [Sent ?rq (Inl e)]\<rparr>"
    have "session_get ev u ps hs w = (Inl e, ?w1)"
      using s0 Inl by simp
    then have "res = Inl e" "w' = ?w1"
      using f by (simp_all add: v1_page_def)
    then show ?thesis by auto
  next
    case r1: (Inr resp)
    let ?w1 = "w\<lparr>trace := trace w @ [Sent ?rq (Inr resp)]\<rparr>"
    have s1: "session_get ev u ps hs w = (Inr resp, ?w1)"
      using s0 r1 by simp
    show ?thesis
    proof (cases "status_code resp = 401")
      case False
      have ff: "(case raise_for_status resp of
           Inl e \<Rightarrow> (Inl RuntimeError, ?w1)
         | Inr u \<Rightarrow>
             (case response_json resp of
                Inl e \<Rightarrow> (Inl RuntimeError, ?w1)
              | Inr page_data \<Rightarrow> (Inr (page_data, next_page_key_header resp, hs), ?w1))) =
         (res, w')"
        using f s1 False by (simp add: v1_page_def)
      have w: "w' = ?w1"
        using same [OF ff] .
      have "next_page_key_header resp = k \<and> json_body resp = Some page"
        if rv: "res = Inr (page, k, hs1)" for page k hs1
        using finish [OF ff [unfolded rv]] by simp
      then show ?thesis
        using w False by auto
    next
      case True
      obtain t w2 where g: "get_token ev (invalidate ?w1) = (t, w2)"
        by (cases "get_token ev (invalidate ?w1)")
      obtain ext2 where e2: "trace w2 = trace (invalidate ?w1) @ ext2" "gets ext2 = []"
        using get_token_gets [of ev "invalidate ?w1"] g by auto
      have t2: "trace w2 = trace w @ (Sent ?rq (Inr resp) # Invalidated # ext2)"
        using e2(1) by (simp add: invalidate_def)
      show ?thesis
      proof (cases t)
        case (Inl e)
        then have "res = Inl e" "w' = w2"
          using f s1 True g by (simp_all add: v1_page_def)
        moreover have "gets (Sent ?rq (Inr resp) # Invalidated # ext2) = [(ps, Inr resp)]"
          using e2(2) by simp
        ultimately show ?thesis
          using t2 by blast
      next
        case (Inr token)
        let ?rq2 = "Get u ps (bearer token)"
        let ?r2 = "respond ev (trace w2) ?rq2"
        obtain r2 where r2: "?r2 = r2" by simp
        let ?w3 = "w2\<lparr>trace := trace w2 @ [Sent ?rq2 r2]\<rparr>"
        let ?ext = "Sent ?rq (Inr resp) # Invalidated # ext2 @ [Sent ?rq2 r2]"
        have s2: "session_get ev u ps (bearer token) w2 = (r2, ?w3)"
          using r2 by (simp add: session_get_def send_def Let_def)
        have t3: "trace ?w3 = trace w @ ?ext"
          using t2 by simp
        have gg: "gets ?ext = [(ps, Inr resp), (ps, r2)]"
          using e2(2) by (simp add: gets_append)
        show ?thesis
        proof (cases r2)
          case (Inl e)
          then have "res = Inl e" "w' = ?w3"
            using f s1 True g Inr s2 by (simp_all add: v1_page_def)
          then show ?thesis
            using t3 gg True by blast
        next
          case r2: (Inr resp2)
          let ?w4 = "w2\<lparr>trace := trace w2 @ [Sent ?rq2 (Inr resp2)]\<rparr>"
          have s3: "session_get ev u ps (bearer token) w2 = (Inr resp2, ?w4)"
            using s2 r2 by simp
          have ff: "(case raise_for_status resp2 of
               Inl e \<Rightarrow> (Inl RuntimeError, ?w4)
             | Inr u \<Rightarrow>
                 (case response_json resp2 of
                    Inl e \<Rightarrow> (Inl RuntimeError, ?w4)
                  | Inr page_data \<Rightarrow>
                      (Inr (page_data, next_page_key_header resp2, bearer token), ?w4))) =
             (res, w')"
            using f s1 True g Inr s3 by (simp add: v1_page_def)
          have w: "w' = ?w3"
            using same [OF ff] r2 by simp
          have "status_code resp2 \<noteq> 401 \<and> next_page_key_header resp2 = k \<and>
                json_body resp2 = Some page"
            if rv: "res = Inr (page, k, hs1)" for page k hs1
            using finish [OF ff [unfolded rv]] by simp
          then have "\<forall>page k hs1. res = Inr (page, k, hs1) \<longrightarrow>
              (\<exists>resp'. last (gets ?ext) = (ps, Inr resp') \<and> status_code resp' \<noteq> 401 \<and>
                 next_page_key_header resp' = k \<and> json_body resp' = Some page)"
            unfolding gg using r2 by auto
          then show ?thesis
            using t3 gg True w by blast
        qed
      qed
    qed
  qed
qed

lemma successively_block_v1:
  assumes "(\<exists>r. g = [(ps, r)]) \<or>
           (\<exists>resp r. status_code resp = 401 \<and> g = [(ps, Inr resp), (ps, r)])"
  shows "successively (continuation_v1 ip) g \<and> g \<noteq> [] \<and> fst (hd g) = ps"
  using assms by (auto simp: continuation_v1_def)

lemma successively_block_v2:
  assumes "gets_ext = [] \<or> (\<exists>r. gets_ext = [(ps, r)]) \<or>
           (\<exists>resp r. status_code resp = 401 \<and> gets_ext = [(ps, Inr resp), (ps, r)])"
  shows "successively continuation_v2 gets_ext \<and> (gets_ext \<noteq> [] \<longrightarrow> fst (hd gets_ext) = ps)"
  using assms by (auto simp: continuation_v2_def)

lemma v1_loop_gets:
  "\<exists>ext. trace (snd (v1_loop ev u ip n acc ps hs w)) = trace w @ ext \<and>
     successively (continuation_v1 ip) (gets ext) \<and>
     (gets ext \<noteq> [] \<longrightarrow> fst (hd (gets ext)) = ps)"
proof (induction n arbitrary: acc ps hs w)
  case 0
  have "trace (snd (v1_loop ev u ip 0 acc ps hs w)) = trace w @ []" by simp
  moreover have "successively (continuation_v1 ip) (gets [])" by simp
  ultimately show ?case by force
next
  case (Suc n)
  obtain res w1 where p: "v1_page ev u ps hs w = (res, w1)"
    by (cases "v1_page ev u ps hs w")
  obtain ext1 where e1: "trace w1 = trace w @ ext1"
      "(\<exists>r. gets ext1 = [(ps, r)]) \<or>
       (\<exists>resp r. status_code resp = 401 \<and> gets ext1 = [(ps, Inr resp), (ps, r)])"
      "\<forall>page k hs1. res = Inr (page, k, hs1) \<longrightarrow>
              (\<exists>resp. last (gets ext1) = (ps, Inr resp) \<and> status_code resp \<noteq> 401 \<and>
                 next_page_key_header resp = k \<and> json_body resp = Some page)"
    using v1_page_gets [OF p] by blast
  have b1: "successively (continuation_v1 ip) (gets ext1)" "gets ext1 \<noteq> []"
      "fst (hd (gets ext1)) = ps"
    using successively_block_v1 [OF e1(2)] by auto
  have stop: ?case if "snd (v1_loop ev u ip (Suc n) acc ps hs w) = w1"
    using that e1(1) b1 by auto
  show ?case
  proof (cases res)
    case (Inl e)
    then show ?thesis using p stop by simp
  next
    case (Inr t)
    obtain page key hs1 where t: "t = (page, key, hs1)" by (cases t)
    obtain resp where r: "last (gets ext1) = (ps, Inr resp)" "status_code resp \<noteq> 401"
        "next_page_key_header resp = key"
      using e1(3) Inr t by blast
    show ?thesis
    proof (cases "key = None \<or> key = Some []")
      case True
      then show ?thesis
        using p Inr t stop by (auto split: pyval.splits)
    next
      case False
      then obtain k where k: "key = Some k" "k \<noteq> []" by auto
      let ?items = "case page of PList xs \<Rightarrow> acc @ xs | v \<Rightarrow> acc @ [v]"
      let ?ps = "dict_set ip ''nextPageKey'' (PStr k)"
      have step: "v1_loop ev u ip (Suc n) acc ps hs w = v1_loop ev u ip n ?items ?ps hs1 w1"
        using p Inr t k by (simp add: Let_def)
      obtain ext2 where e2: "trace (snd (v1_loop ev u ip n ?items ?ps hs1 w1)) = trace w1 @ ext2"
          "successively (continuation_v1 ip) (gets ext2)"
          "gets ext2 \<noteq> [] \<longrightarrow> fst (hd (gets ext2)) = ?ps"
        using Suc.IH by blast
      have link: "gets ext2 \<noteq> [] \<longrightarrow> continuation_v1 ip (last (gets ext1)) (hd (gets ext2))"
        using r k e2(3) by (simp add: continuation_v1_def)
      have "trace (snd (v1_loop ev u ip (Suc n) acc ps hs w)) = trace w @ (ext1 @ ext2)"
        using step e1(1) e2(1) by simp
      moreover have "successively (continuation_v1 ip) (gets (ext1 @ ext2))"
        using b1 e2(2) link by (auto simp: gets_append successively_append_iff)
      moreover have "fst (hd (gets (ext1 @ ext2))) = ps"
        using b1 by (simp add: gets_append)
      ultimately show ?thesis by blast
    qed
  qed
qed

lemma entities_loop_gets:
  "\<exists>ext. trace (snd (entities_loop ev u n acc meta ps w)) = trace w @ ext \<and>
     successively continuation_v2 (gets ext) \<and>
     (gets ext \<noteq> [] \<longrightarrow> fst (hd (gets ext)) = ps)"
proof (induction n arbitrary: acc meta ps w)
  case 0
  have "trace (snd (entities_loop ev u 0 acc meta ps w)) = trace w @ []" by simp
  moreover have "successively continuation_v2 (gets [])" by simp
  ultimately show ?case by force
next
  case (Suc n)
  obtain res w1 where p: "fetch_json ev u ps w = (res, w1)"
    by (cases "fetch_json ev u ps w")
  obtain ext1 where e1: "trace w1 = trace w @ ext1"
      "(gets ext1 = [] \<and> isl res) \<or> (\<exists>r. gets ext1 = [(ps, r)]) \<or>
       (\<exists>resp r. status_code resp = 401 \<and> gets ext1 = [(ps, Inr resp), (ps, r)])"
      "\<forall>v. res = Inr v \<longrightarrow>
              (\<exists>resp. gets ext1 \<noteq> [] \<and> last (gets ext1) = (ps, Inr resp) \<and>
                 status_code resp \<noteq> 401 \<and> json_body resp = Some v)"
    using fetch_json_gets [OF p] by blast
  have b1: "successively continuation_v2 (gets ext1)"
      "gets ext1 \<noteq> [] \<longrightarrow> fst (hd (gets ext1)) = ps"
    using successively_block_v2 [of "gets ext1" ps] e1(2) by auto
  have stop: ?case if "snd (entities_loop ev u (Suc n) acc meta ps w) = w1"
    using that e1(1) b1 by auto
  show ?case
  proof (cases res)
    case (Inl e)
    then show ?thesis using p stop by simp
  next
    case (Inr v)
    obtain resp where r: "gets ext1 \<noteq> []" "last (gets ext1) = (ps, Inr resp)"
        "status_code resp \<noteq> 401" "json_body resp = Some v"
      using e1(3) Inr by blast
    show ?thesis
    proof (cases "\<exists>page es. v = PDict page \<and>
                    py_iter (py_get_default page ''entities'' (PList [])) = Inr es \<and>
                    py_truthy (py_get page ''nextPageKey'')")
      case False
      have "snd (entities_loop ev u (Suc n) acc meta ps w) = w1"
        using p Inr False by (auto simp: Let_def split: pyval.splits sum.splits)
      then show ?thesis by (rule stop)
    next
      case True
      then obtain page es where v: "v = PDict page"
          "py_iter (py_get_default page ''entities'' (PList [])) = Inr es"
          "py_truthy (py_get page ''nextPageKey'')"
        by blast
      let ?meta = "case meta of None \<Rightarrow> Some (page_meta page) | Some m \<Rightarrow> Some m"
      let ?ps = "[(PStr ''nextPageKey'', py_get page ''nextPageKey'')]"
      have step: "entities_loop ev u (Suc n) acc meta ps w =
                    entities_loop ev u n (acc @ es) ?meta ?ps w1"
        using p Inr v by (simp add: Let_def)
      obtain ext2 where e2:
          "trace (snd (entities_loop ev u n (acc @ es) ?meta ?ps w1)) = trace w1 @ ext2"
          "successively continuation_v2 (gets ext2)"
          "gets ext2 \<noteq> [] \<longrightarrow> fst (hd (gets ext2)) = ?ps"
        using Suc.IH by blast
      have link: "gets ext2 \<noteq> [] \<longrightarrow> continuation_v2 (last (gets ext1)) (hd (gets ext2))"
        using r v e2(3) by (simp add: continuation_v2_def)
      have "trace (snd (entities_loop ev u (Suc n) acc meta ps w)) = trace w @ (ext1 @ ext2)"
        using step e1(1) e2(1) by simp
      moreover have "successively continuation_v2 (gets (ext1 @ ext2))"
        using b1 r(1) e2(2) link by (auto simp: gets_append successively_append_iff)
      moreover have "fst (hd (gets (ext1 @ ext2))) = ps"
        using b1 r(1) by (simp add: gets_append)
      ultimately show ?thesis by blast
    qed
  qed
qed

text \<open>
  Claim C4. In the trace of a paginated fetch, whatever its outcome, the first \<open>GET\<close>
  carries the initial parameters and each later \<open>GET\<close> follows the rule of its protocol.
  Protocol A (\<open>fetch_paginated_v1\<close>): after a 401 the parameters are repeated; otherwise
  the previous response carried a non-empty \<open>Next-Page-Key\<close> header and the parameters
  are the initial parameters with \<open>nextPageKey\<close> set to it, never those of an
  intermediate page. Protocol B (\<open>fetch_paginated_entities\<close>): after a 401 the
  parameters are repeated; otherwise the previous page carried a truthy \<open>nextPageKey\<close>
  and the parameters are that cursor alone.
\<close>

theorem continuation_parameters:
  "(\<exists>ext. trace (snd (fetch_paginated_v1 ev u initial_params fuel w)) = trace w @ ext \<and>
      successively (continuation_v1 initial_params) (gets ext) \<and>
      (gets ext \<noteq> [] \<longrightarrow> fst (hd (gets ext)) = initial_params)) \<and>
   (\<exists>ext. trace (snd (fetch_paginated_entities ev base_url initial_params fuel w)) = trace w @ ext \<and>
      successively continuation_v2 (gets ext) \<and>
      (gets ext \<noteq> [] \<longrightarrow> fst (hd (gets ext)) = initial_params))"
proof -
  have a: "\<exists>ext. trace (snd (fetch_paginated_v1 ev u initial_params fuel w)) = trace w @ ext \<and>
      successively (continuation_v1 initial_params) (gets ext) \<and>
      (gets ext \<noteq> [] \<longrightarrow> fst (hd (gets ext)) = initial_params)"
  proof -
    obtain t w0 where g: "get_token ev w = (t, w0)"
      by (cases "get_token ev w")
    obtain ext0 where e0: "trace w0 = trace w @ ext0" "gets ext0 = []"
      using get_token_gets [of ev w] g by auto
    show ?thesis
    proof (cases t)
      case (Inl e)
      then have "trace (snd (fetch_paginated_v1 ev u initial_params fuel w)) = trace w @ ext0"
        using g e0 by (simp add: fetch_paginated_v1_def)
      then show ?thesis using e0(2) by force
    next
      case (Inr token)
      obtain ext1 where e1:
          "trace (snd (v1_loop ev u initial_params fuel [] initial_params (bearer token) w0)) =
             trace w0 @ ext1"
          "successively (continuation_v1 initial_params) (gets ext1)"
          "gets ext1 \<noteq> [] \<longrightarrow> fst (hd (gets ext1)) = initial_params"
        using v1_loop_gets by blast
      have "trace (snd (fetch_paginated_v1 ev u initial_params fuel w)) = trace w @ (ext0 @ ext1)"
        using g Inr e0(1) e1(1) by (simp add: fetch_paginated_v1_def)
      moreover have "gets (ext0 @ ext1) = gets ext1"
        using e0(2) by (simp add: gets_append)
      ultimately show ?thesis
        using e1(2,3) by metis
    qed
  qed
  have "snd (fetch_paginated_entities ev base_url initial_params fuel w) =
        snd (entities_loop ev (base_url @ ''/api/v2/entities'') fuel [] None initial_params w)"
    by (simp add: fetch_paginated_entities_def split: prod.splits option.splits sum.splits)
  then have b: "\<exists>ext. trace (snd (fetch_paginated_entities ev base_url initial_params fuel w)) =
        trace w @ ext \<and>
      successively continuation_v2 (gets ext) \<and>
      (gets ext \<noteq> [] \<longrightarrow> fst (hd (gets ext)) = initial_params)"
    using entities_loop_gets [of ev "base_url @ ''/api/v2/entities''" fuel "[]" None initial_params w]
    by simp
  show ?thesis
    using a b by blast
qed

text \<open>
  Three pages under protocol A and two under protocol B, from \<open>pageSize=5\<close>: the
  requests of protocol A keep \<open>pageSize\<close> and replace the cursor, the second request of
  protocol B carries the cursor alone.
\<close>

theorem continuation_parameters_witness:
  "map fst (gets (trace (snd (fetch_paginated_v1
      \<lparr>respond = (\<lambda>tr rq. case rq of
           Post a form \<Rightarrow>
             Inr \<lparr>status_code = 200,
                  json_body = Some (PDict [(PStr ''access_token'', PStr ''T'')]),
                  next_page_key_header = None\<rparr>
         | Get a ps hs \<Rightarrow>
             Inr \<lparr>status_code = 200, json_body = Some (PList []),
                  next_page_key_header =
                    (case dict_get ps ''nextPageKey'' of
                       None \<Rightarrow> Some ''k1''
                     | Some v \<Rightarrow> if v = PStr ''k1'' then Some ''k2'' else None)\<rparr>),
       clock = (\<lambda>n. 0)\<rparr>
      ''u'' [(PStr ''pageSize'', PStr ''5'')] 9
      \<lparr>authenticator =
         JwtAuthenticator \<lparr>auth_url = ''sso'', client_id = ''id'', client_secret = ''s'',
                           scope = None, resource = None, audience = None\<rparr>,
       trace = [], ticks = 0\<rparr>)))) =
     [[(PStr ''pageSize'', PStr ''5'')],
      [(PStr ''pageSize'', PStr ''5''), (PStr ''nextPageKey'', PStr ''k1'')],
      [(PStr ''pageSize'', PStr ''5''), (PStr ''nextPageKey'', PStr ''k2'')]] \<and>
   map fst (gets (trace (snd (fetch_paginated_entities
      \<lparr>respond = (\<lambda>tr rq. case rq of
           Post a form \<Rightarrow>
             Inr \<lparr>status_code = 200,
                  json_body = Some (PDict [(PStr ''access_token'', PStr ''T'')]),
                  next_page_key_header = None\<rparr>
         | Get a ps hs \<Rightarrow>
             Inr \<lparr>status_code = 200,
                  json_body =
                    Some (PDict (case dict_get ps ''nextPageKey'' of
                                   None \<Rightarrow> [(PStr ''nextPageKey'', PStr ''abc'')]
                                 | Some v \<Rightarrow> [])),
                  next_page_key_header = None\<rparr>),
       clock = (\<lambda>n. 0)\<rparr>
      ''https://x'' [(PStr ''pageSize'', PStr ''5'')] 9
      \<lparr>authenticator =
         JwtAuthenticator \<lparr>auth_url = ''sso'', client_id = ''id'', client_secret = ''s'',
                           scope = None, resource = None, audience = None\<rparr>,
       trace = [], ticks = 0\<rparr>)))) =
     [[(PStr ''pageSize'', PStr ''5'')], [(PStr ''nextPageKey'', PStr ''abc'')]] \<and>
   successively (continuation_v1 [(PStr ''pageSize'', PStr ''5'')])
     (gets (trace (snd (fetch_paginated_v1
      \<lparr>respond = (\<lambda>tr rq. case rq of
           Post a form \<Rightarrow>
             Inr \<lparr>status_code = 200,
                  json_body = Some (PDict [(PStr ''access_token'', PStr ''T'')]),
                  next_page_key_header = None\<rparr>
         | Get a ps hs \<Rightarrow>
             Inr \<lparr>status_code = 200, json_body = Some (PList []),
                  next_page_key_header =
                    (case dict_get ps ''nextPageKey'' of
                       None \<Rightarrow> Some ''k1''
                     | Some v \<Rightarrow> if v = PStr ''k1'' then Some ''k2'' else None)\<rparr>),
       clock = (\<lambda>n. 0)\<rparr>
      ''u'' [(PStr ''pageSize'', PStr ''5'')] 9
      \<lparr>authenticator =
         JwtAuthenticator \<lparr>auth_url = ''sso'', client_id = ''id'', client_secret = ''s'',
                           scope = None, resource = None, audience = None\<rparr>,
       trace = [], ticks = 0\<rparr>))))"
proof -
  let ?tok = "\<lparr>status_code = 200,
                json_body = Some (PDict [(PStr ''access_token'', PStr ''T'')]),
                next_page_key_header = None\<rparr>"
  let ?eva = "\<lparr>respond = (\<lambda>tr rq. case rq of
           Post a form \<Rightarrow> Inr ?tok
         | Get a ps hs \<Rightarrow>
             Inr \<lparr>status_code = 200, json_body = Some (PList []),
                  next_page_key_header =
                    (case dict_get ps ''nextPageKey'' of
                       None \<Rightarrow> Some ''k1''
                     | Some v \<Rightarrow> if v = PStr ''k1'' then Some ''k2'' else None)\<rparr>),
       clock = (\<lambda>n. 0)\<rparr>"
  let ?evb = "\<lparr>respond = (\<lambda>tr rq. case rq of
           Post a form \<Rightarrow> Inr ?tok
         | Get a ps hs \<Rightarrow>
             Inr \<lparr>status_code = 200,
                  json_body =
                    Some (PDict (case dict_get ps ''nextPageKey'' of
                                   None \<Rightarrow> [(PStr ''nextPageKey'', PStr ''abc'')]
                                 | Some v \<Rightarrow> [])),
                  next_page_key_header = None\<rparr>),
       clock = (\<lambda>n. 0)\<rparr>"
  let ?ip = "[(PStr ''pageSize'', PStr ''5'')]"
  let ?w = "\<lparr>authenticator =
         JwtAuthenticator \<lparr>auth_url = ''sso'', client_id = ''id'', client_secret = ''s'',
                           scope = None, resource = None, audience = None\<rparr>,
       trace = [], ticks = 0\<rparr>"
  have a: "map fst (gets (trace (snd (fetch_paginated_v1 ?eva ''u'' ?ip 9 ?w)))) =
     [?ip, [(PStr ''pageSize'', PStr ''5''), (PStr ''nextPageKey'', PStr ''k1'')],
      [(PStr ''pageSize'', PStr ''5''), (PStr ''nextPageKey'', PStr ''k2'')]]"
    by code_simp
  have b: "map fst (gets (trace (snd (fetch_paginated_entities ?evb ''https://x'' ?ip 9 ?w)))) =
     [?ip, [(PStr ''nextPageKey'', PStr ''abc'')]]"
    by code_simp
  from continuation_parameters [of ?eva "''u''" ?ip 9 ?w "''https://x''"]
  obtain ext where "trace (snd (fetch_paginated_v1 ?eva ''u'' ?ip 9 ?w)) = trace ?w @ ext"
      "successively (continuation_v1 ?ip) (gets ext)"
    by blast
  then have c: "successively (continuation_v1 ?ip)
                  (gets (trace (snd (fetch_paginated_v1 ?eva ''u'' ?ip 9 ?w))))"
    by simp
  show ?thesis
    using a b c by simp
qed

end
